theory Spec2Isabelle
  imports Main "HOL-Library.Sublist"
begin

section \<open>Strings\<close>

text \<open>
  A Python \<open>str\<close> is modelled as a \<^typ>\<open>string\<close>: the list of the bytes of its UTF-8
  encoding. Concatenation of strings is concatenation of their encodings, and an ASCII
  token occurs in a text exactly where its bytes occur in the encoding of the text, so
  the f-strings of the notebooks, which interpolate strings between ASCII literals, are
  appends of byte lists.
\<close>

text \<open>
  \<open>occurrences p s\<close> counts the positions of \<open>s\<close> at which the pattern \<open>p\<close> starts.
  It is a notion of the specification ("contains the token", "exactly once"), used with
  non-empty patterns only.
\<close>

fun occurrences :: "'a list \<Rightarrow> 'a list \<Rightarrow> nat" where
  "occurrences p [] = 0"
| "occurrences p (x # xs) = (if prefix p (x # xs) then 1 else 0) + occurrences p xs"


section \<open>Inference notebook: the prompt formatter\<close>

text \<open>
  \<^verbatim>\<open>
  def preprocess_prompt(system_prompt, user_prompt):
      return (
          "<|begin_of_text|><|start_header_id|>system<|end_header_id|>\n\n"
          f"{system_prompt}<|eot_id|><|start_header_id|>user<|end_header_id|>\n\n"
          f"<image>\n{user_prompt}<|eot_id|><|start_header_id|>assistant<|end_header_id|>\n\n"
      )
  \<close>
  Three adjacent literals, the last two of them f-strings.
\<close>

definition preprocess_prompt :: "string \<Rightarrow> string \<Rightarrow> string" where
  "preprocess_prompt system_prompt user_prompt =
     ''<|begin_of_text|><|start_header_id|>system<|end_header_id|>\<newline>\<newline>'' @
     (system_prompt @ ''<|eot_id|><|start_header_id|>user<|end_header_id|>\<newline>\<newline>'') @
     (''<image>\<newline>'' @ user_prompt @
        ''<|eot_id|><|start_header_id|>assistant<|end_header_id|>\<newline>\<newline>'')"


section \<open>Errors\<close>

text \<open>
  A Python exception is a value of \<open>error\<close>; a call that may raise returns
  \<open>error + 'a\<close>, with \<open>Inl\<close> for the exception. A call that also changes the files on
  disk returns the result together with the new state, so that what was written before an
  exception stays written.
\<close>

datatype error =
    IndexError
  | FileExistsError
  | FileNotFoundError
  | NotADirectoryError
  | UnidentifiedImageError
  | OtherError string

text \<open>Indexing a Python list with an index from \<open>range\<close>: out of range raises.\<close>

definition getitem :: "'a list \<Rightarrow> nat \<Rightarrow> error + 'a" where
  "getitem xs i = (if i < length xs then Inr (xs ! i) else Inl IndexError)"


section \<open>Inference notebook: image download and generation\<close>

text \<open>
  A call into a library is a parameter of the function that makes it. It takes the state
  of the world (network, devices, files) and returns its result, or the exception it
  raises, with the state it leaves: a second call need not behave as the first did.
\<close>

text \<open>
  \<^verbatim>\<open>
  def download_image(url):
      content = requests.get(url).content
      return Image.open(BytesIO(content))
  \<close>
  \<open>requests_get\<close> returns a response (whatever its status) or raises, \<open>Image_open\<close>
  decodes the bytes of an in-memory file or raises.
\<close>

record response =
  status_code :: nat
  content :: string

definition download_image ::
  "(string \<Rightarrow> 'w \<Rightarrow> (error + response) \<times> 'w) \<Rightarrow> (string \<Rightarrow> 'w \<Rightarrow> (error + 'img) \<times> 'w)
     \<Rightarrow> string \<Rightarrow> 'w \<Rightarrow> (error + 'img) \<times> 'w" where
  "download_image requests_get Image_open url w =
     (case requests_get url w of
        (Inl e, w1) \<Rightarrow> (Inl e, w1)
      | (Inr r, w1) \<Rightarrow> Image_open (content r) w1)"

text \<open>
  \<^verbatim>\<open>
  @torch.inference_mode()
  def inference(model, tokenizer, image_processor, image, prompt, generation_config):
      input_ids = (
          tokenizer_image_token(prompt, tokenizer, return_tensors="pt").unsqueeze(0).cuda()
      )
      image_tensor = (
          process_images([image], image_processor, model.config)
          .to(model.device, dtype=torch.float16)
      )
      output_ids = model.generate(
          input_ids, images=image_tensor, image_sizes=[image.size], **generation_config,
      )
      outputs = tokenizer.batch_decode(output_ids, skip_special_tokens=True)
      return outputs
  \<close>
  The calls into the modelling library are the fields of a record; tensors, models,
  tokenizers and image processors are opaque.
\<close>

record ('tok, 'model, 'ip, 'img, 'tensor, 'cfg, 'w) llava =
  tokenizer_image_token :: "string \<Rightarrow> 'tok \<Rightarrow> 'w \<Rightarrow> (error + 'tensor) \<times> 'w"
  unsqueeze :: "'tensor \<Rightarrow> nat \<Rightarrow> 'w \<Rightarrow> (error + 'tensor) \<times> 'w"
  cuda :: "'tensor \<Rightarrow> 'w \<Rightarrow> (error + 'tensor) \<times> 'w"
  process_images :: "'img list \<Rightarrow> 'ip \<Rightarrow> 'model \<Rightarrow> 'w \<Rightarrow> (error + 'tensor) \<times> 'w"
  to_device :: "'tensor \<Rightarrow> 'model \<Rightarrow> 'w \<Rightarrow> (error + 'tensor) \<times> 'w"
  generate ::
    "'model \<Rightarrow> 'tensor \<Rightarrow> 'tensor \<Rightarrow> 'img list \<Rightarrow> 'cfg \<Rightarrow> 'w \<Rightarrow> (error + 'tensor) \<times> 'w"
  batch_decode :: "'tok \<Rightarrow> 'tensor \<Rightarrow> 'w \<Rightarrow> (error + string list) \<times> 'w"

definition inference ::
  "('tok, 'model, 'ip, 'img, 'tensor, 'cfg, 'w) llava \<Rightarrow> 'model \<Rightarrow> 'tok \<Rightarrow> 'ip \<Rightarrow> 'img \<Rightarrow> string
     \<Rightarrow> 'cfg \<Rightarrow> 'w \<Rightarrow> (error + string list) \<times> 'w" where
  "inference lib model tokenizer image_processor image' prompt generation_config w =
     (case tokenizer_image_token lib prompt tokenizer w of
        (Inl e, w1) \<Rightarrow> (Inl e, w1)
      | (Inr t, w1) \<Rightarrow>
     (case unsqueeze lib t 0 w1 of
        (Inl e, w2) \<Rightarrow> (Inl e, w2)
      | (Inr u, w2) \<Rightarrow>
     (case cuda lib u w2 of
        (Inl e, w3) \<Rightarrow> (Inl e, w3)
      | (Inr input_ids, w3) \<Rightarrow>
     (case process_images lib [image'] image_processor model w3 of
        (Inl e, w4) \<Rightarrow> (Inl e, w4)
      | (Inr p, w4) \<Rightarrow>
     (case to_device lib p model w4 of
        (Inl e, w5) \<Rightarrow> (Inl e, w5)
      | (Inr image_tensor, w5) \<Rightarrow>
     (case generate lib model input_ids image_tensor [image'] generation_config w5 of
        (Inl e, w6) \<Rightarrow> (Inl e, w6)
      | (Inr output_ids, w6) \<Rightarrow> batch_decode lib tokenizer output_ids w6))))))"

text \<open>
  \<^verbatim>\<open>
  generation_config = dict(
      do_sample=False,
      max_new_tokens=256,
  )
  outputs = inference(model, tokenizer, image_processor, image, prompt, generation_config)
  \<close>
  A \<open>dict\<close> keeps its keys in insertion order: an association list.
\<close>

datatype pyval = PyBool bool | PyInt int

definition generation_config :: "(string \<times> pyval) list" where
  "generation_config = [(''do_sample'', PyBool False), (''max_new_tokens'', PyInt 256)]"

definition run_inference ::
  "('tok, 'model, 'ip, 'img, 'tensor, (string \<times> pyval) list, 'w) llava \<Rightarrow> 'model \<Rightarrow> 'tok \<Rightarrow> 'ip
     \<Rightarrow> 'img \<Rightarrow> string \<Rightarrow> 'w \<Rightarrow> (error + string list) \<times> 'w" where
  "run_inference lib model tokenizer image_processor image' prompt w =
     inference lib model tokenizer image_processor image' prompt generation_config w"


section \<open>Fine-tuning notebook: the dataset directory\<close>

text \<open>
  A path is the list of the components \<open>pathlib\<close> keeps for it: it drops \<open>.\<close> and empty
  components and keeps \<open>..\<close>, so \<open>Path('a/..')\<close> has the components \<open>a\<close> and \<open>..\<close> and
  its \<open>parent\<close> is \<open>Path('a')\<close>. Paths are read from the directory at the top of the
  tree, the empty path, which always exists and is its own parent, as the root directory
  is; what lies above a working directory is outside the model.

  The file system maps a location, a path without \<open>..\<close>, to the kind of node found there.
  \<open>walk\<close> resolves a path as the operating system does: every component is looked up in
  the directory reached so far, which has to exist and to be a directory, and \<open>..\<close> leads
  to the directory above. \<open>stat\<close> is \<open>os.stat\<close>, \<open>path_exists\<close> is \<open>Path.exists\<close> (false
  when \<open>os.stat\<close> raises), \<open>is_dir\<close> is \<open>Path.is_dir\<close>, \<open>os_mkdir\<close> is \<open>os.mkdir\<close>,
  and \<open>mkdir\<close> follows \<open>Path.mkdir\<close> of the standard library:
  \<^verbatim>\<open>
  def mkdir(self, mode=0o777, parents=False, exist_ok=False):
      try:
          os.mkdir(self, mode)
      except FileNotFoundError:
          if not parents or self.parent == self:
              raise
          self.parent.mkdir(parents=True, exist_ok=True)
          self.mkdir(mode, parents=False, exist_ok=exist_ok)
      except OSError:
          if not exist_ok or not self.is_dir():
              raise
  \<close>
  Permissions, symbolic links and other processes are outside the model.
\<close>

type_synonym path = "string list"

datatype node = Dir | File

type_synonym fs = "path \<Rightarrow> node option"

definition node_at :: "fs \<Rightarrow> path \<Rightarrow> node option" where
  "node_at fs p = (if p = [] then Some Dir else fs p)"

fun walk :: "fs \<Rightarrow> path \<Rightarrow> path \<Rightarrow> error + path" where
  "walk fs cur [] = Inr cur"
| "walk fs cur (c # cs) =
     (case node_at fs cur of
        None \<Rightarrow> Inl FileNotFoundError
      | Some File \<Rightarrow> Inl NotADirectoryError
      | Some Dir \<Rightarrow> walk fs (if c = ''..'' then butlast cur else cur @ [c]) cs)"

definition stat :: "fs \<Rightarrow> path \<Rightarrow> error + node" where
  "stat fs p =
     (case walk fs [] p of
        Inl e \<Rightarrow> Inl e
      | Inr loc \<Rightarrow> (case node_at fs loc of None \<Rightarrow> Inl FileNotFoundError | Some n \<Rightarrow> Inr n))"

definition path_exists :: "path \<Rightarrow> fs \<Rightarrow> (error + bool) \<times> fs" where
  "path_exists p fs = (Inr (case stat fs p of Inl e \<Rightarrow> False | Inr n \<Rightarrow> True), fs)"

definition is_dir :: "fs \<Rightarrow> path \<Rightarrow> bool" where
  "is_dir fs p = (stat fs p = Inr Dir)"

definition os_mkdir :: "path \<Rightarrow> fs \<Rightarrow> (error + unit) \<times> fs" where
  "os_mkdir p fs =
     (if p = [] then (Inl FileExistsError, fs)
      else case walk fs [] (butlast p) of
             Inl e \<Rightarrow> (Inl e, fs)
           | Inr loc \<Rightarrow>
               (case node_at fs loc of
                  None \<Rightarrow> (Inl FileNotFoundError, fs)
                | Some File \<Rightarrow> (Inl NotADirectoryError, fs)
                | Some Dir \<Rightarrow>
                    if last p = ''..'' then (Inl FileExistsError, fs)
                    else (case fs (loc @ [last p]) of
                            Some n \<Rightarrow> (Inl FileExistsError, fs)
                          | None \<Rightarrow> (Inr (), fs(loc @ [last p] \<mapsto> Dir)))))"

function mkdir :: "path \<Rightarrow> bool \<Rightarrow> bool \<Rightarrow> fs \<Rightarrow> (error + unit) \<times> fs" where
  "mkdir p parents exist_ok fs =
     (case os_mkdir p fs of
        (Inr u, fs') \<Rightarrow> (Inr u, fs')
      | (Inl e, fs') \<Rightarrow>
          if e = FileNotFoundError then
            (if \<not> parents \<or> butlast p = p then (Inl e, fs')
             else case mkdir (butlast p) True True fs' of
                    (Inl e', fs'') \<Rightarrow> (Inl e', fs'')
                  | (Inr _, fs'') \<Rightarrow> mkdir p False exist_ok fs'')
          else if \<not> exist_ok \<or> \<not> is_dir fs' p then (Inl e, fs')
          else (Inr (), fs'))"
  by pat_completeness auto
termination
  by (relation "inv_image (measure length <*lex*> measure (\<lambda>b. if b then 1 else 0))
                  (\<lambda>(p, parents, exist_ok, fs). (p, parents))")
     (auto simp: butlast_conv_take)

declare mkdir.simps [simp del]

text \<open>
  In a file system every node but the top lies in a directory.
\<close>

definition wf_fs :: "fs \<Rightarrow> bool" where
  "wf_fs fs \<longleftrightarrow> (\<forall>p. fs p \<noteq> None \<longrightarrow> node_at fs (butlast p) = Some Dir)"

text \<open>
  \<^verbatim>\<open>
  def prepare_dataset_path(dataset_dir: Union[str, Path]):
      dataset_dir = Path(dataset_dir)
      if not dataset_dir.exists():
          dataset_dir.mkdir(parents=True)
      if not (dataset_dir / "images").exists():
          (dataset_dir / "images").mkdir(parents=True)
  \<close>
  The function is written over the two operations of the path library, for any state
  \<open>'w\<close> of the world they act on; \<open>prepare_dataset_path_fs\<close> runs it on the file system
  above. The argument is the path that \<open>Path(dataset_dir)\<close> denotes.
\<close>

definition prepare_dataset_path ::
  "(path \<Rightarrow> 'w \<Rightarrow> (error + bool) \<times> 'w) \<Rightarrow> (path \<Rightarrow> 'w \<Rightarrow> (error + unit) \<times> 'w) \<Rightarrow> path \<Rightarrow> 'w
     \<Rightarrow> (error + unit) \<times> 'w" where
  "prepare_dataset_path exists_op mkdir_op dataset_dir w =
     (case exists_op dataset_dir w of
        (Inl e, w1) \<Rightarrow> (Inl e, w1)
      | (Inr found, w1) \<Rightarrow>
          (case (if \<not> found then mkdir_op dataset_dir w1 else (Inr (), w1)) of
             (Inl e, w2) \<Rightarrow> (Inl e, w2)
           | (Inr _, w2) \<Rightarrow>
               (case exists_op (dataset_dir @ [''images'']) w2 of
                  (Inl e, w3) \<Rightarrow> (Inl e, w3)
                | (Inr found_images, w3) \<Rightarrow>
                    if \<not> found_images then mkdir_op (dataset_dir @ [''images'']) w3
                    else (Inr (), w3))))"

definition prepare_dataset_path_fs :: "path \<Rightarrow> fs \<Rightarrow> (error + unit) \<times> fs" where
  "prepare_dataset_path_fs dataset_dir fs =
     prepare_dataset_path path_exists (\<lambda>p. mkdir p True False) dataset_dir fs"


section \<open>Fine-tuning notebook: the dataset converter\<close>

text \<open>
  A conversation turn is a dictionary with the keys \<open>from\<close> and \<open>value\<close>, a training
  example one with the keys \<open>id\<close>, \<open>image\<close> and \<open>conversations\<close>. A batch handed to a
  batched \<open>map\<close> is a dictionary of columns, each a list with one entry per row.
\<close>

record turn =
  from_field :: string
  value_field :: string

record 'id example =
  id_field :: 'id
  image_field :: string
  conversations :: "turn list"

record ('id, 'img) batch =
  imgid :: "'id list"
  image_col :: "'img list"
  detailed_caption :: "string list"
  json :: "'id example list"

text \<open>
  \<^verbatim>\<open>
  def preprocess(batch: list[dict], batch_size: int, user_prompt: str):
      batch["json"] = []
      for i in range(batch_size):
          img = f"{batch['imgid'][i]}.jpg"
          batch["image"][i].save(f"llava_dataset/images/{img}", format="JPEG")
          batch["json"].append(
              {
                  "id": batch["imgid"][i],
                  "image": img,
                  "conversations": [
                      {"from": "human", "value": f"<image>\n{user_prompt}"},
                      {"from": "gpt", "value": batch["detailed_caption"][i]},
                  ],
              },
          )
      return batch
  \<close>
  \<open>fmt\<close> is the formatting of an identifier inside the f-string and \<open>save_op\<close> the
  \<open>save\<close> of the image library, called with the image, the path and the state of the
  world. The loop runs over the indices \<open>range(batch_size)\<close> yields; an exception leaves
  the loop without a batch.
\<close>

fun preprocess_loop ::
  "('id \<Rightarrow> string) \<Rightarrow> ('img \<Rightarrow> string \<Rightarrow> 'w \<Rightarrow> (error + unit) \<times> 'w) \<Rightarrow> string \<Rightarrow> nat list
     \<Rightarrow> ('id, 'img) batch \<Rightarrow> 'w \<Rightarrow> (error + ('id, 'img) batch) \<times> 'w" where
  "preprocess_loop fmt save_op user_prompt [] batch w = (Inr batch, w)"
| "preprocess_loop fmt save_op user_prompt (i # rest) batch w =
     (case getitem (imgid batch) i of
        Inl e \<Rightarrow> (Inl e, w)
      | Inr ident \<Rightarrow>
          let img = fmt ident @ ''.jpg'' in
          (case getitem (image_col batch) i of
             Inl e \<Rightarrow> (Inl e, w)
           | Inr picture \<Rightarrow>
               (case save_op picture (''llava_dataset/images/'' @ img) w of
                  (Inl e, w') \<Rightarrow> (Inl e, w')
                | (Inr _, w') \<Rightarrow>
                    (case getitem (detailed_caption batch) i of
                       Inl e \<Rightarrow> (Inl e, w')
                     | Inr caption \<Rightarrow>
                         preprocess_loop fmt save_op user_prompt rest
                           (batch\<lparr>json := json batch @
                              [\<lparr>id_field = ident,
                                image_field = img,
                                conversations =
                                  [\<lparr>from_field = ''human'',
                                    value_field = ''<image>\<newline>'' @ user_prompt\<rparr>,
                                   \<lparr>from_field = ''gpt'', value_field = caption\<rparr>]\<rparr>]\<rparr>)
                           w'))))"

definition preprocess ::
  "('id \<Rightarrow> string) \<Rightarrow> ('img \<Rightarrow> string \<Rightarrow> 'w \<Rightarrow> (error + unit) \<times> 'w) \<Rightarrow> ('id, 'img) batch \<Rightarrow> nat
     \<Rightarrow> string \<Rightarrow> 'w \<Rightarrow> (error + ('id, 'img) batch) \<times> 'w" where
  "preprocess fmt save_op batch batch_size user_prompt w =
     preprocess_loop fmt save_op user_prompt [0..<batch_size] (batch\<lparr>json := []\<rparr>) w"

text \<open>
  One image library to run the converter with: \<open>encode_error\<close> tells which error, if
  any, encoding an image raises, and the state is the list of the files written so far,
  each with its path and the image saved there.
\<close>

type_synonym 'img files = "(string \<times> 'img) list"

definition save ::
  "('img \<Rightarrow> error option) \<Rightarrow> 'img \<Rightarrow> string \<Rightarrow> 'img files \<Rightarrow> (error + unit) \<times> 'img files" where
  "save encode_error img path files =
     (case encode_error img of
        Some e \<Rightarrow> (Inl e, files)
      | None \<Rightarrow> (Inr (), files @ [(path, img)]))"

text \<open>
  For stating what the converter does: the record and the file (path and image) that row
  \<open>i\<close> of a batch gives rise to; whether every column has row \<open>i\<close>; one \<open>save\<close> for each
  file of a list, in order, up to the first that raises; and the ways in which the loop
  body for row \<open>i\<close>, started in the state \<open>w\<close>, ends in the error \<open>e\<close> and the state
  \<open>w'\<close>: the row is missing from the identifiers or the images, or \<open>save\<close> raises, or
  \<open>save\<close> returns and the row is missing from the captions.
\<close>

definition example_of :: "('id \<Rightarrow> string) \<Rightarrow> string \<Rightarrow> ('id, 'img) batch \<Rightarrow> nat \<Rightarrow> 'id example" where
  "example_of fmt user_prompt batch i =
     \<lparr>id_field = imgid batch ! i,
      image_field = fmt (imgid batch ! i) @ ''.jpg'',
      conversations =
        [\<lparr>from_field = ''human'', value_field = ''<image>\<newline>'' @ user_prompt\<rparr>,
         \<lparr>from_field = ''gpt'', value_field = detailed_caption batch ! i\<rparr>]\<rparr>"

definition file_of :: "('id \<Rightarrow> string) \<Rightarrow> ('id, 'img) batch \<Rightarrow> nat \<Rightarrow> string \<times> 'img" where
  "file_of fmt batch i =
     (''llava_dataset/images/'' @ fmt (imgid batch ! i) @ ''.jpg'', image_col batch ! i)"

definition row_in :: "('id, 'img) batch \<Rightarrow> nat \<Rightarrow> bool" where
  "row_in batch i \<longleftrightarrow>
     i < length (imgid batch) \<and> i < length (image_col batch) \<and> i < length (detailed_caption batch)"

fun saves ::
  "('img \<Rightarrow> string \<Rightarrow> 'w \<Rightarrow> (error + unit) \<times> 'w) \<Rightarrow> (string \<times> 'img) list \<Rightarrow> 'w
     \<Rightarrow> (error + unit) \<times> 'w" where
  "saves save_op [] w = (Inr (), w)"
| "saves save_op ((path, img) # rest) w =
     (case save_op img path w of
        (Inl e, w') \<Rightarrow> (Inl e, w')
      | (Inr u, w') \<Rightarrow> saves save_op rest w')"

definition row_raises ::
  "('id \<Rightarrow> string) \<Rightarrow> ('img \<Rightarrow> string \<Rightarrow> 'w \<Rightarrow> (error + unit) \<times> 'w) \<Rightarrow> ('id, 'img) batch \<Rightarrow> nat
     \<Rightarrow> 'w \<Rightarrow> error \<Rightarrow> 'w \<Rightarrow> bool" where
  "row_raises fmt save_op batch i w e w' \<longleftrightarrow>
     (length (imgid batch) \<le> i \<or> length (image_col batch) \<le> i) \<and> e = IndexError \<and> w' = w
     \<or> i < length (imgid batch) \<and> i < length (image_col batch)
        \<and> save_op (snd (file_of fmt batch i)) (fst (file_of fmt batch i)) w = (Inl e, w')
     \<or> i < length (imgid batch) \<and> i < length (image_col batch)
        \<and> save_op (snd (file_of fmt batch i)) (fst (file_of fmt batch i)) w = (Inr (), w')
        \<and> length (detailed_caption batch) \<le> i \<and> e = IndexError"


section \<open>Fine-tuning notebook: the patched end-of-sequence function\<close>

text \<open>
  \<open>str.lower\<close>, on the letters A to Z. No other code point lower-cases to a letter of
  \<open>human\<close> or \<open>gpt\<close>, so the two comparisons below come out as in Python.
\<close>

definition lower_char :: "char \<Rightarrow> char" where
  "lower_char c =
     (case map_of (zip ''ABCDEFGHIJKLMNOPQRSTUVWXYZ'' ''abcdefghijklmnopqrstuvwxyz'') c of
        Some l \<Rightarrow> l
      | None \<Rightarrow> c)"

definition lower :: "string \<Rightarrow> string" where
  "lower s = map lower_char s"

text \<open>
  The roles the notebook installs as \<open>conv.default_conversation.roles\<close>.
\<close>

definition default_conversation_roles :: "string \<times> string" where
  "default_conversation_roles =
     (''<|start_header_id|>user<|end_header_id|>\<newline>\<newline>'',
      ''<|start_header_id|>assistant<|end_header_id|>\<newline>\<newline>'')"

text \<open>
  \<^verbatim>\<open>
  def patched_fn(header, source, get_conversation=True):
      EOS_TOKEN = "<|eot_id|>" # for Llama-3
      conversation = header
      for sentence in source:
          from_str = sentence["from"]
          if from_str.lower() == "human":
              from_str = conv.default_conversation.roles[0]
          elif from_str.lower() == "gpt":
              from_str = conv.default_conversation.roles[1]
          else:
              from_str = 'unknown'
          sentence["value"] = (EOS_TOKEN + from_str + sentence["value"])
          if get_conversation:
              conversation += sentence["value"]
      conversation += EOS_TOKEN
      return conversation
  \<close>
  \<open>roles\<close> is the value of \<open>conv.default_conversation.roles\<close> at the call. The
  function writes into the dictionaries of \<open>source\<close>, each turn a dictionary of its own;
  the model returns the list as the caller finds it afterwards, next to the conversation.
\<close>

definition EOS_TOKEN :: string where
  "EOS_TOKEN = ''<|eot_id|>''"

text \<open>The \<open>if\<close>/\<open>elif\<close>/\<open>else\<close> chain of the loop body, which rebinds \<open>from_str\<close>.\<close>

definition role_of :: "string \<times> string \<Rightarrow> string \<Rightarrow> string" where
  "role_of roles from_str =
     (if lower from_str = ''human'' then fst roles
      else if lower from_str = ''gpt'' then snd roles
      else ''unknown'')"

fun patched_loop ::
  "string \<times> string \<Rightarrow> bool \<Rightarrow> string \<Rightarrow> turn list \<Rightarrow> string \<times> turn list" where
  "patched_loop roles get_conversation conversation [] = (conversation, [])"
| "patched_loop roles get_conversation conversation (sentence # source) =
     (let from_str = from_field sentence;
          from_str = role_of roles from_str;
          sentence = sentence\<lparr>value_field := EOS_TOKEN @ from_str @ value_field sentence\<rparr>;
          conversation = (if get_conversation then conversation @ value_field sentence
                          else conversation);
          (conversation, source) = patched_loop roles get_conversation conversation source
      in (conversation, sentence # source))"

definition patched_fn ::
  "string \<times> string \<Rightarrow> string \<Rightarrow> turn list \<Rightarrow> bool \<Rightarrow> string \<times> turn list" where
  "patched_fn roles header source get_conversation =
     (let (conversation, source) = patched_loop roles get_conversation header source
      in (conversation @ EOS_TOKEN, source))"

text \<open>
  The end-of-sequence function as the specification words it: the role is chosen by the
  sender as written, and every turn is part of the result.
\<close>

definition spec_role :: "string \<times> string \<Rightarrow> string \<Rightarrow> string" where
  "spec_role roles from_str =
     (if from_str = ''human'' then fst roles
      else if from_str = ''gpt'' then snd roles
      else ''unknown'')"

definition spec_add_speaker_and_signal :: "string \<times> string \<Rightarrow> string \<Rightarrow> turn list \<Rightarrow> string" where
  "spec_add_speaker_and_signal roles header source =
     header
     @ concat (map (\<lambda>t. ''<|eot_id|>'' @ spec_role roles (from_field t) @ value_field t) source)
     @ ''<|eot_id|>''"


section \<open>Fine-tuning notebook: merging and saving\<close>

text \<open>
  \<^verbatim>\<open>
  model_path = "ytu-ce-cosmos/Turkish-LLaVA-v0.1"
  output_dir = "output"
  ...
  # Load & merge model with LoRA adapter and convert to bfloat16
  model = PeftModel.from_pretrained(model_path, output_dir)
  model = model.merge_and_unload().bfloat16()
  \<close>
  \<^verbatim>\<open>
  merged_path = "merged_output"
  repo_id = "atasoglu/Turkish-LLaVA-v0.1-ft"
  push_to_hub = True

  model.save_pretrained(merged_path, repo_id=repo_id, push_to_hub=push_to_hub)
  tokenizer.save_pretrained(merged_path, repo_id=repo_id, push_to_hub=push_to_hub)
  image_processor.save_pretrained(merged_path, repo_id=repo_id, push_to_hub=push_to_hub)
  \<close>
  The calls into the adapter and hub libraries are the fields of a record. Python passes
  any object as the first argument of \<open>from_pretrained\<close>, the base model: here it is
  either the name of a checkpoint, a string, or a loaded model. The three assignments of
  the second cell are its parameters. \<open>merge_and_save\<close> runs the two cells in order; an
  exception in the first leaves the second unreached.
\<close>

datatype 'model base = Name string | Module 'model

record ('model, 'peft, 'tok, 'ip, 'w) hub =
  from_pretrained :: "'model base \<Rightarrow> string \<Rightarrow> 'w \<Rightarrow> (error + 'peft) \<times> 'w"
  merge_and_unload :: "'peft \<Rightarrow> 'w \<Rightarrow> (error + 'model) \<times> 'w"
  bfloat16 :: "'model \<Rightarrow> 'w \<Rightarrow> (error + 'model) \<times> 'w"
  model_save_pretrained :: "'model \<Rightarrow> string \<Rightarrow> string \<Rightarrow> bool \<Rightarrow> 'w \<Rightarrow> (error + unit) \<times> 'w"
  tokenizer_save_pretrained :: "'tok \<Rightarrow> string \<Rightarrow> string \<Rightarrow> bool \<Rightarrow> 'w \<Rightarrow> (error + unit) \<times> 'w"
  image_processor_save_pretrained ::
    "'ip \<Rightarrow> string \<Rightarrow> string \<Rightarrow> bool \<Rightarrow> 'w \<Rightarrow> (error + unit) \<times> 'w"

definition merge_cell ::
  "('model, 'peft, 'tok, 'ip, 'w) hub \<Rightarrow> string \<Rightarrow> string \<Rightarrow> 'w \<Rightarrow> (error + 'model) \<times> 'w" where
  "merge_cell lib model_path output_dir w =
     (case from_pretrained lib (Name model_path) output_dir w of
        (Inl e, w1) \<Rightarrow> (Inl e, w1)
      | (Inr model, w1) \<Rightarrow>
          (case merge_and_unload lib model w1 of
             (Inl e, w2) \<Rightarrow> (Inl e, w2)
           | (Inr merged, w2) \<Rightarrow> bfloat16 lib merged w2))"

definition save_cell ::
  "('model, 'peft, 'tok, 'ip, 'w) hub \<Rightarrow> string \<Rightarrow> string \<Rightarrow> bool \<Rightarrow> 'model \<Rightarrow> 'tok \<Rightarrow> 'ip \<Rightarrow> 'w
     \<Rightarrow> (error + unit) \<times> 'w" where
  "save_cell lib merged_path repo_id push_to_hub model tokenizer image_processor w =
     (case model_save_pretrained lib model merged_path repo_id push_to_hub w of
        (Inl e, w1) \<Rightarrow> (Inl e, w1)
      | (Inr _, w1) \<Rightarrow>
          (case tokenizer_save_pretrained lib tokenizer merged_path repo_id push_to_hub w1 of
             (Inl e, w2) \<Rightarrow> (Inl e, w2)
           | (Inr _, w2) \<Rightarrow>
               image_processor_save_pretrained lib image_processor merged_path repo_id
                 push_to_hub w2))"

definition merge_and_save ::
  "('model, 'peft, 'tok, 'ip, 'w) hub \<Rightarrow> string \<Rightarrow> string \<Rightarrow> string \<Rightarrow> string \<Rightarrow> bool \<Rightarrow> 'tok \<Rightarrow> 'ip
     \<Rightarrow> 'w \<Rightarrow> (error + unit) \<times> 'w" where
  "merge_and_save lib model_path output_dir merged_path repo_id push_to_hub tokenizer
       image_processor w =
     (case merge_cell lib model_path output_dir w of
        (Inl e, w1) \<Rightarrow> (Inl e, w1)
      | (Inr model, w1) \<Rightarrow>
          save_cell lib merged_path repo_id push_to_hub model tokenizer image_processor w1)"


section \<open>Occurrences of a token\<close>

lemma prefix_straddle:
  assumes "p \<noteq> []" and "c \<notin> set (tl p)" and "xs \<noteq> []"
  shows "prefix p (xs @ c # ys) \<longleftrightarrow> prefix p xs"
proof
  assume "prefix p (xs @ c # ys)"
  then consider "prefix p xs" | us where "p = xs @ us" and "prefix us (c # ys)"
    by (auto simp: prefix_append)
  then show "prefix p xs"
  proof cases
    case 1
    then show ?thesis .
  next
    case 2
    show ?thesis
    proof (cases us)
      case Nil
      with 2 show ?thesis by simp
    next
      case (Cons u us')
      with 2 have "u = c" by simp
      with 2 Cons assms(3) have "c \<in> set (tl p)" by (cases xs) auto
      with assms(2) show ?thesis by contradiction
    qed
  qed
next
  assume "prefix p xs"
  then show "prefix p (xs @ c # ys)" by (rule prefix_prefix)
qed

text \<open>
  A text followed by a character that does not occur in the pattern after its first
  position: no occurrence of the pattern straddles the boundary.
\<close>

lemma occurrences_append_fresh:
  assumes "p \<noteq> []" and "c \<notin> set (tl p)"
  shows "occurrences p (xs @ c # ys) = occurrences p xs + occurrences p (c # ys)"
proof (induction xs)
  case Nil
  show ?case by simp
next
  case (Cons x xs)
  have "prefix p ((x # xs) @ c # ys) \<longleftrightarrow> prefix p (x # xs)"
    using assms by (intro prefix_straddle) simp_all
  with Cons show ?case by simp
qed

lemma occurrences_image_before_lt:
  "occurrences ''<image>'' (xs @ CHR ''<'' # ys) =
     occurrences ''<image>'' xs + occurrences ''<image>'' (CHR ''<'' # ys)"
  by (rule occurrences_append_fresh) simp_all

lemma occurrences_at_start:
  "p \<noteq> [] \<Longrightarrow> 1 \<le> occurrences p (p @ s)"
  by (cases p) simp_all


section \<open>The prompt formatter is a fixed concatenation\<close>

lemma preprocess_prompt_concat:
  "preprocess_prompt system_prompt user_prompt =
     ''<|begin_of_text|><|start_header_id|>system<|end_header_id|>\<newline>\<newline>'' @
     system_prompt @
     ''<|eot_id|><|start_header_id|>user<|end_header_id|>\<newline>\<newline><image>\<newline>'' @
     user_prompt @
     ''<|eot_id|><|start_header_id|>assistant<|end_header_id|>\<newline>\<newline>''"
  by (simp add: preprocess_prompt_def)

lemma preprocess_prompt_one_image:
  assumes "occurrences ''<image>'' system_prompt = 0"
    and "occurrences ''<image>'' user_prompt = 0"
  shows "occurrences ''<image>'' (preprocess_prompt system_prompt user_prompt) = 1"
  using assms by (simp add: preprocess_prompt_def occurrences_image_before_lt)

text \<open>
  Claim C2. For every pair of strings, \<open>preprocess_prompt\<close> returns the concatenation
  of the system header, the system prompt, the end-of-turn token with the user header and
  the image placeholder line, the user prompt, and the end-of-turn token with the
  assistant header. The result is a function of the two inputs alone, every delimiter
  sits at the position this equation gives it, and when neither input contains
  \<open><image>\<close> the result contains it at exactly one position.
\<close>

theorem preprocess_prompt_format:
  "preprocess_prompt system_prompt user_prompt =
     ''<|begin_of_text|><|start_header_id|>system<|end_header_id|>\<newline>\<newline>'' @
     system_prompt @
     ''<|eot_id|><|start_header_id|>user<|end_header_id|>\<newline>\<newline><image>\<newline>'' @
     user_prompt @
     ''<|eot_id|><|start_header_id|>assistant<|end_header_id|>\<newline>\<newline>''
   \<and> (occurrences ''<image>'' system_prompt = 0 \<and> occurrences ''<image>'' user_prompt = 0
        \<longrightarrow> occurrences ''<image>'' (preprocess_prompt system_prompt user_prompt) = 1)"
  using preprocess_prompt_concat preprocess_prompt_one_image by blast

theorem preprocess_prompt_format_witness:
  "occurrences ''<image>'' ''Be brief.'' = 0 \<and> occurrences ''<image>'' ''Describe <it>.'' = 0
   \<and> preprocess_prompt ''Be brief.'' ''Describe <it>.'' =
       ''<|begin_of_text|><|start_header_id|>system<|end_header_id|>\<newline>\<newline>Be brief.<|eot_id|><|start_header_id|>user<|end_header_id|>\<newline>\<newline><image>\<newline>Describe <it>.<|eot_id|><|start_header_id|>assistant<|end_header_id|>\<newline>\<newline>''
   \<and> occurrences ''<image>'' (preprocess_prompt ''Be brief.'' ''Describe <it>.'') = 1"
proof -
  have a: "occurrences ''<image>'' ''Be brief.'' = 0" by simp
  have b: "occurrences ''<image>'' ''Describe <it>.'' = 0" by simp
  from preprocess_prompt_format [of "''Be brief.''" "''Describe <it>.''"] a b
  show ?thesis by simp
qed


section \<open>The patched end-of-sequence function\<close>

lemma patched_loop_snd:
  "snd (patched_loop roles g c source) =
     map (\<lambda>t. t\<lparr>value_field := EOS_TOKEN @ role_of roles (from_field t) @ value_field t\<rparr>) source"
  by (induction source arbitrary: c) (simp_all add: Let_def case_prod_beta)

lemma patched_loop_fst_True:
  "fst (patched_loop roles True c source) =
     c @ concat (map (\<lambda>t. EOS_TOKEN @ role_of roles (from_field t) @ value_field t) source)"
  by (induction source arbitrary: c) (simp_all add: Let_def case_prod_beta)

lemma patched_loop_fst_False:
  "fst (patched_loop roles False c source) = c"
  by (induction source arbitrary: c) (simp_all add: Let_def case_prod_beta)

lemma patched_fn_fst_loop:
  "fst (patched_fn roles header source g) = fst (patched_loop roles g header source) @ EOS_TOKEN"
  by (simp add: patched_fn_def case_prod_beta)

lemma patched_fn_snd:
  "snd (patched_fn roles header source g) =
     map (\<lambda>t. t\<lparr>value_field := EOS_TOKEN @ role_of roles (from_field t) @ value_field t\<rparr>) source"
  using patched_loop_snd [of roles g header source]
  by (simp add: patched_fn_def case_prod_beta)

lemma patched_fn_fst_True:
  "fst (patched_fn roles header source True) =
     header @ concat (map (\<lambda>t. EOS_TOKEN @ role_of roles (from_field t) @ value_field t) source)
       @ EOS_TOKEN"
  by (simp add: patched_fn_fst_loop patched_loop_fst_True)

lemma patched_fn_fst_False:
  "fst (patched_fn roles header source False) = header @ EOS_TOKEN"
  by (simp add: patched_fn_fst_loop patched_loop_fst_False)

text \<open>
  Claim C4, as the specification words it (\<open>spec_add_speaker_and_signal\<close>), fails twice.
  With \<open>get_conversation\<close> false the turns are left out of the returned conversation, and
  a sender is compared after lower-casing, so \<open>Human\<close> is given the user role.
\<close>

theorem patched_fn_conversation_counterexample:
  "fst (patched_fn default_conversation_roles ''H''
          [\<lparr>from_field = ''human'', value_field = ''hi''\<rparr>] False)
     \<noteq> spec_add_speaker_and_signal default_conversation_roles ''H''
          [\<lparr>from_field = ''human'', value_field = ''hi''\<rparr>]
   \<and> fst (patched_fn default_conversation_roles ''H''
          [\<lparr>from_field = ''Human'', value_field = ''hi''\<rparr>] True)
     \<noteq> spec_add_speaker_and_signal default_conversation_roles ''H''
          [\<lparr>from_field = ''Human'', value_field = ''hi''\<rparr>]"
  by (simp add: patched_fn_def spec_add_speaker_and_signal_def spec_role_def role_of_def
        lower_def lower_char_def EOS_TOKEN_def default_conversation_roles_def)

text \<open>
  Claim C4, amended. With \<open>get_conversation\<close> true, its default, the function returns the
  header followed by, for each turn in order, the end-of-sequence token, the role of the
  turn and its text, and a last end-of-sequence token; the role is the user role when the
  lower-cased sender is \<open>human\<close>, the assistant role when it is \<open>gpt\<close>, and \<open>unknown\<close>
  otherwise. With \<open>get_conversation\<close> false it returns the header followed by the
  end-of-sequence token. Either way the result ends with the end-of-sequence token.
\<close>

theorem patched_fn_conversation:
  "fst (patched_fn roles header source True) =
     header
     @ concat (map (\<lambda>t. ''<|eot_id|>'' @ role_of roles (from_field t) @ value_field t) source)
     @ ''<|eot_id|>''
   \<and> fst (patched_fn roles header source False) = header @ ''<|eot_id|>''
   \<and> suffix ''<|eot_id|>'' (fst (patched_fn roles header source get_conversation))
   \<and> role_of roles from_str =
       (if lower from_str = ''human'' then fst roles
        else if lower from_str = ''gpt'' then snd roles
        else ''unknown'')"
proof -
  have "suffix EOS_TOKEN (fst (patched_fn roles header source get_conversation))"
    unfolding patched_fn_fst_loop by (rule suffixI) (rule refl)
  then show ?thesis
    by (simp add: patched_fn_fst_True patched_fn_fst_False EOS_TOKEN_def role_of_def)
qed

lemma sum_list_strict:
  "xs \<noteq> [] \<Longrightarrow> (\<And>x. x \<in> set xs \<Longrightarrow> f x < (g x :: nat)) \<Longrightarrow>
     sum_list (map f xs) < sum_list (map g xs)"
proof (induction xs)
  case Nil
  then show ?case by simp
next
  case (Cons x xs)
  show ?case
  proof (cases "xs = []")
    case True
    with Cons.prems show ?thesis by simp
  next
    case False
    with Cons have "sum_list (map f xs) < sum_list (map g xs)" by simp
    moreover from Cons.prems have "f x < g x" by simp
    ultimately show ?thesis by simp
  qed
qed

lemma patched_fn_twice_snd:
  "snd (patched_fn roles header' (snd (patched_fn roles header source g)) g') =
     map (\<lambda>t. t\<lparr>value_field := EOS_TOKEN @ role_of roles (from_field t) @ EOS_TOKEN
                     @ role_of roles (from_field t) @ value_field t\<rparr>) source"
  by (simp add: patched_fn_snd)

lemma patched_fn_changes_source:
  assumes "source \<noteq> []"
  shows "snd (patched_fn roles header source g) \<noteq> source"
proof
  assume eq: "snd (patched_fn roles header source g) = source"
  from assms obtain t ts where src: "source = t # ts" by (cases source) auto
  from eq have "t\<lparr>value_field := EOS_TOKEN @ role_of roles (from_field t) @ value_field t\<rparr> = t"
    by (simp add: patched_fn_snd src)
  then have "value_field (t\<lparr>value_field := EOS_TOKEN @ role_of roles (from_field t) @ value_field t\<rparr>)
      = value_field t"
    by (rule arg_cong)
  then have "length (EOS_TOKEN @ role_of roles (from_field t) @ value_field t) = length (value_field t)"
    by simp
  then show False by (simp add: EOS_TOKEN_def)
qed

lemma patched_fn_twice_differs:
  assumes "source \<noteq> []"
  shows "snd (patched_fn roles header' (snd (patched_fn roles header source g)) g')
           \<noteq> snd (patched_fn roles header source g)"
proof -
  have "snd (patched_fn roles header source g) \<noteq> []"
    using assms by (simp add: patched_fn_snd)
  then show ?thesis by (rule patched_fn_changes_source)
qed

lemma patched_fn_twice_longer:
  assumes "source \<noteq> []"
  shows "length (fst (patched_fn roles header source True))
           < length (fst (patched_fn roles header (snd (patched_fn roles header source g)) True))"
proof -
  have "sum_list (map (\<lambda>t. length (EOS_TOKEN @ role_of roles (from_field t) @ value_field t)) source)
        < sum_list (map (\<lambda>t. length (EOS_TOKEN @ role_of roles (from_field t) @ EOS_TOKEN
                     @ role_of roles (from_field t) @ value_field t)) source)"
    using assms by (rule sum_list_strict) (simp add: EOS_TOKEN_def)
  then show ?thesis
    by (simp add: patched_fn_fst_True patched_fn_snd length_concat comp_def)
qed

text \<open>
  Claim C9. The function overwrites the texts of the turns it is given: after a call, with
  \<open>get_conversation\<close> true or false, every turn of the list holds the end-of-sequence
  token, its role and its former text, so a non-empty list is not what it was. A second
  call on the same list prefixes every text once more: the list differs from the one the
  first call left, and the conversation returned differs from the one a first call returns.
\<close>

theorem patched_fn_mutates_source:
  "snd (patched_fn roles header source get_conversation) =
     map (\<lambda>t. t\<lparr>value_field := ''<|eot_id|>'' @ role_of roles (from_field t) @ value_field t\<rparr>)
       source
   \<and> (source \<noteq> [] \<longrightarrow> snd (patched_fn roles header source get_conversation) \<noteq> source)
   \<and> snd (patched_fn roles header' (snd (patched_fn roles header source get_conversation))
            get_conversation') =
       map (\<lambda>t. t\<lparr>value_field := ''<|eot_id|>'' @ role_of roles (from_field t) @ ''<|eot_id|>''
                       @ role_of roles (from_field t) @ value_field t\<rparr>) source
   \<and> (source \<noteq> [] \<longrightarrow>
        snd (patched_fn roles header' (snd (patched_fn roles header source get_conversation))
               get_conversation')
          \<noteq> snd (patched_fn roles header source get_conversation))
   \<and> (source \<noteq> [] \<longrightarrow>
        fst (patched_fn roles header (snd (patched_fn roles header source get_conversation)) True)
          \<noteq> fst (patched_fn roles header source True))"
proof -
  have "source \<noteq> [] \<longrightarrow>
        fst (patched_fn roles header (snd (patched_fn roles header source get_conversation)) True)
          \<noteq> fst (patched_fn roles header source True)"
    using patched_fn_twice_longer [of source roles header get_conversation] by auto
  moreover have "source \<noteq> [] \<longrightarrow>
        snd (patched_fn roles header' (snd (patched_fn roles header source get_conversation))
               get_conversation')
          \<noteq> snd (patched_fn roles header source get_conversation)"
    using patched_fn_twice_differs by blast
  moreover have "source \<noteq> [] \<longrightarrow> snd (patched_fn roles header source get_conversation) \<noteq> source"
    using patched_fn_changes_source by blast
  ultimately show ?thesis
    using patched_fn_snd [of roles header source get_conversation]
      patched_fn_twice_snd [of roles header' header source get_conversation get_conversation']
    by (simp only: EOS_TOKEN_def)
qed

theorem patched_fn_mutates_source_witness:
  "[\<lparr>from_field = ''human'', value_field = ''hi''\<rparr>] \<noteq> []
   \<and> snd (patched_fn (''U:'', ''A:'') ''H'' [\<lparr>from_field = ''human'', value_field = ''hi''\<rparr>] False)
       = [\<lparr>from_field = ''human'', value_field = ''<|eot_id|>U:hi''\<rparr>]
   \<and> snd (patched_fn (''U:'', ''A:'') ''H''
            (snd (patched_fn (''U:'', ''A:'') ''H''
                    [\<lparr>from_field = ''human'', value_field = ''hi''\<rparr>] False)) True)
       = [\<lparr>from_field = ''human'', value_field = ''<|eot_id|>U:<|eot_id|>U:hi''\<rparr>]
   \<and> fst (patched_fn (''U:'', ''A:'') ''H''
            (snd (patched_fn (''U:'', ''A:'') ''H''
                    [\<lparr>from_field = ''human'', value_field = ''hi''\<rparr>] False)) True)
       \<noteq> fst (patched_fn (''U:'', ''A:'') ''H''
                [\<lparr>from_field = ''human'', value_field = ''hi''\<rparr>] True)"
  using patched_fn_mutates_source [of "(''U:'', ''A:'')" "''H''"
      "[\<lparr>from_field = ''human'', value_field = ''hi''\<rparr>]" False "''H''" True]
  by (simp add: patched_fn_def EOS_TOKEN_def role_of_def lower_def lower_char_def)


section \<open>The dataset converter\<close>

lemma example_of_json [simp]: "example_of fmt up (b\<lparr>json := js\<rparr>) = example_of fmt up b"
  by (rule ext) (simp add: example_of_def)

lemma file_of_json [simp]: "file_of fmt (b\<lparr>json := js\<rparr>) = file_of fmt b"
  by (rule ext) (simp add: file_of_def)

lemma row_in_json [simp]: "row_in (b\<lparr>json := js\<rparr>) = row_in b"
  by (rule ext) (simp add: row_in_def)

lemma row_raises_json [simp]:
  "row_raises fmt sop (b\<lparr>json := js\<rparr>) = row_raises fmt sop b"
  by (intro ext) (simp add: row_raises_def)

text \<open>The loop body, by what row \<open>i\<close> is and what \<open>save\<close> does.\<close>

lemma preprocess_loop_row_returns:
  assumes "row_in b i"
    and "sop (snd (file_of fmt b i)) (fst (file_of fmt b i)) w = (Inr (), w1)"
  shows "preprocess_loop fmt sop up (i # rest) b w =
           preprocess_loop fmt sop up rest (b\<lparr>json := json b @ [example_of fmt up b i]\<rparr>) w1"
  using assms by (simp add: row_in_def getitem_def example_of_def file_of_def Let_def)

lemma preprocess_loop_row_raises:
  assumes "row_raises fmt sop b i w e w'"
  shows "preprocess_loop fmt sop up (i # rest) b w = (Inl e, w')"
  using assms
  by (auto simp: row_raises_def getitem_def file_of_def Let_def)

lemma preprocess_loop_row_cases:
  "(\<exists>e w'. row_raises fmt sop b i w e w')
   \<or> (\<exists>w1. row_in b i \<and> sop (snd (file_of fmt b i)) (fst (file_of fmt b i)) w = (Inr (), w1))"
proof (cases "i < length (imgid b) \<and> i < length (image_col b)")
  case False
  then show ?thesis by (auto simp: row_raises_def)
next
  case True
  obtain r w1 where s: "sop (snd (file_of fmt b i)) (fst (file_of fmt b i)) w = (r, w1)"
    by (cases "sop (snd (file_of fmt b i)) (fst (file_of fmt b i)) w")
  show ?thesis
  proof (cases r)
    case (Inl e)
    with True s show ?thesis by (auto simp: row_raises_def)
  next
    case (Inr u)
    with True s show ?thesis by (cases "i < length (detailed_caption b)") (auto simp: row_raises_def row_in_def)
  qed
qed

lemma saves_append:
  "saves sop (xs @ ys) w =
     (case saves sop xs w of (Inl e, w') \<Rightarrow> (Inl e, w') | (Inr u, w') \<Rightarrow> saves sop ys w')"
  by (induction xs arbitrary: w) (auto split: prod.splits sum.splits)

lemma preprocess_loop_returns:
  "preprocess_loop fmt sop up idxs b w = (Inr b', w') \<longleftrightarrow>
     (\<forall>i\<in>set idxs. row_in b i)
     \<and> saves sop (map (file_of fmt b) idxs) w = (Inr (), w')
     \<and> b' = b\<lparr>json := json b @ map (example_of fmt up b) idxs\<rparr>"
proof (induction idxs arbitrary: b w)
  case Nil
  show ?case by auto
next
  case (Cons i idxs)
  from preprocess_loop_row_cases [of fmt sop b i w]
  show ?case
  proof (elim disjE exE conjE)
    fix e w1
    assume r: "row_raises fmt sop b i w e w1"
    then have "preprocess_loop fmt sop up (i # idxs) b w = (Inl e, w1)"
      by (rule preprocess_loop_row_raises)
    moreover from r have "\<not> (row_in b i \<and> (\<exists>w2. sop (snd (file_of fmt b i)) (fst (file_of fmt b i)) w = (Inr (), w2)))"
      by (auto simp: row_raises_def row_in_def)
    ultimately show ?thesis
      by (cases "file_of fmt b i") (auto split: prod.splits sum.splits)
  next
    fix w1
    assume ok: "row_in b i" and s: "sop (snd (file_of fmt b i)) (fst (file_of fmt b i)) w = (Inr (), w1)"
    have "preprocess_loop fmt sop up (i # idxs) b w =
        preprocess_loop fmt sop up idxs (b\<lparr>json := json b @ [example_of fmt up b i]\<rparr>) w1"
      using ok s by (rule preprocess_loop_row_returns)
    with Cons [of "b\<lparr>json := json b @ [example_of fmt up b i]\<rparr>" w1] ok s show ?thesis
      by (cases "file_of fmt b i") auto
  qed
qed

lemma preprocess_loop_append:
  "preprocess_loop fmt sop up (xs @ ys) b w =
     (case preprocess_loop fmt sop up xs b w of
        (Inl e, w') \<Rightarrow> (Inl e, w')
      | (Inr b', w') \<Rightarrow> preprocess_loop fmt sop up ys b' w')"
  by (induction xs arbitrary: b w)
     (simp_all add: Let_def split: sum.splits prod.splits)

lemma preprocess_loop_raises_intro:
  assumes "\<forall>j\<in>set pre. row_in b j"
    and "saves sop (map (file_of fmt b) pre) w = (Inr (), w1)"
    and "row_raises fmt sop b i w1 e w'"
  shows "preprocess_loop fmt sop up (pre @ i # post) b w = (Inl e, w')"
proof -
  have "preprocess_loop fmt sop up pre b w =
      (Inr (b\<lparr>json := json b @ map (example_of fmt up b) pre\<rparr>), w1)"
    using assms(1,2) by (simp add: preprocess_loop_returns)
  moreover have "preprocess_loop fmt sop up (i # post)
      (b\<lparr>json := json b @ map (example_of fmt up b) pre\<rparr>) w1 = (Inl e, w')"
    using assms(3) by (intro preprocess_loop_row_raises) simp
  ultimately show ?thesis by (simp add: preprocess_loop_append del: preprocess_loop.simps)
qed

lemma preprocess_loop_raises_elim:
  assumes "preprocess_loop fmt sop up idxs b w = (Inl e, w')"
  shows "\<exists>pre i post w1. idxs = pre @ i # post \<and> (\<forall>j\<in>set pre. row_in b j)
           \<and> saves sop (map (file_of fmt b) pre) w = (Inr (), w1)
           \<and> row_raises fmt sop b i w1 e w'"
  using assms
proof (induction idxs arbitrary: b w)
  case Nil
  then show ?case by simp
next
  case (Cons i idxs)
  from preprocess_loop_row_cases [of fmt sop b i w]
  show ?case
  proof (elim disjE exE conjE)
    fix e1 w1
    assume r: "row_raises fmt sop b i w e1 w1"
    then have "preprocess_loop fmt sop up (i # idxs) b w = (Inl e1, w1)"
      by (rule preprocess_loop_row_raises)
    with Cons.prems have "e1 = e" "w1 = w'" by simp_all
    with r have "i # idxs = [] @ i # idxs \<and> (\<forall>j\<in>set []. row_in b j)
        \<and> saves sop (map (file_of fmt b) []) w = (Inr (), w) \<and> row_raises fmt sop b i w e w'"
      by simp
    then show ?thesis by blast
  next
    fix w1
    assume ok: "row_in b i" and s: "sop (snd (file_of fmt b i)) (fst (file_of fmt b i)) w = (Inr (), w1)"
    have "preprocess_loop fmt sop up (i # idxs) b w =
        preprocess_loop fmt sop up idxs (b\<lparr>json := json b @ [example_of fmt up b i]\<rparr>) w1"
      using ok s by (rule preprocess_loop_row_returns)
    with Cons.prems have "preprocess_loop fmt sop up idxs
        (b\<lparr>json := json b @ [example_of fmt up b i]\<rparr>) w1 = (Inl e, w')" by simp
    from Cons.IH [OF this] obtain pre k post w2 where
      d: "idxs = pre @ k # post" and rows: "\<forall>j\<in>set pre. row_in b j"
      and sv: "saves sop (map (file_of fmt b) pre) w1 = (Inr (), w2)"
      and rr: "row_raises fmt sop b k w2 e w'"
      by auto
    from s sv have "saves sop (map (file_of fmt b) (i # pre)) w = (Inr (), w2)"
      by (cases "file_of fmt b i") simp
    with d rows ok rr have "i # idxs = (i # pre) @ k # post \<and> (\<forall>j\<in>set (i # pre). row_in b j)
        \<and> saves sop (map (file_of fmt b) (i # pre)) w = (Inr (), w2) \<and> row_raises fmt sop b k w2 e w'"
      by simp
    then show ?thesis by blast
  qed
qed

lemma upt_split_at:
  assumes "i < n"
  shows "[0..<n] = [0..<i] @ i # [Suc i..<n]"
proof -
  from assms have "[0..<i + (n - i)] = [0..<i] @ [i..<i + (n - i)]"
    by (intro upt_add_eq_append) simp
  with assms show ?thesis by (simp add: upt_conv_Cons)
qed

lemma upt_eq_append_Cons:
  assumes "[0..<n] = pre @ i # post"
  shows "i < n \<and> pre = [0..<i]"
proof -
  have len: "length pre < n"
    using arg_cong [OF assms, of length] by simp
  have "[0..<n] ! length pre = i" using assms by simp
  with len have i: "i = length pre" by simp
  have "take (length pre) [0..<n] = pre" using assms by simp
  with len have "pre = [0..<length pre]" by (simp add: take_upt)
  with i len show ?thesis by simp
qed

lemma preprocess_returns:
  "preprocess fmt sop batch batch_size up w = (Inr b', w') \<longleftrightarrow>
     (\<forall>i<batch_size. row_in batch i)
     \<and> saves sop (map (file_of fmt batch) [0..<batch_size]) w = (Inr (), w')
     \<and> b' = batch\<lparr>json := map (example_of fmt up batch) [0..<batch_size]\<rparr>"
  by (auto simp: preprocess_def preprocess_loop_returns)

lemma preprocess_raises:
  "preprocess fmt sop batch batch_size up w = (Inl e, w') \<longleftrightarrow>
     (\<exists>i<batch_size. \<exists>w1. (\<forall>j<i. row_in batch j)
        \<and> saves sop (map (file_of fmt batch) [0..<i]) w = (Inr (), w1)
        \<and> row_raises fmt sop batch i w1 e w')"
proof
  assume "preprocess fmt sop batch batch_size up w = (Inl e, w')"
  then have "preprocess_loop fmt sop up [0..<batch_size] (batch\<lparr>json := []\<rparr>) w = (Inl e, w')"
    by (simp add: preprocess_def)
  from preprocess_loop_raises_elim [OF this] obtain pre i post w1 where
    d: "[0..<batch_size] = pre @ i # post" and rows: "\<forall>j\<in>set pre. row_in batch j"
    and sv: "saves sop (map (file_of fmt batch) pre) w = (Inr (), w1)"
    and rr: "row_raises fmt sop batch i w1 e w'"
    by auto
  from upt_eq_append_Cons [OF d] have "i < batch_size" "pre = [0..<i]" by simp_all
  with rows sv rr show "\<exists>i<batch_size. \<exists>w1. (\<forall>j<i. row_in batch j)
        \<and> saves sop (map (file_of fmt batch) [0..<i]) w = (Inr (), w1)
        \<and> row_raises fmt sop batch i w1 e w'"
    by auto
next
  assume "\<exists>i<batch_size. \<exists>w1. (\<forall>j<i. row_in batch j)
        \<and> saves sop (map (file_of fmt batch) [0..<i]) w = (Inr (), w1)
        \<and> row_raises fmt sop batch i w1 e w'"
  then obtain i w1 where i: "i < batch_size" and rows: "\<forall>j<i. row_in batch j"
    and sv: "saves sop (map (file_of fmt batch) [0..<i]) w = (Inr (), w1)"
    and rr: "row_raises fmt sop batch i w1 e w'"
    by auto
  have "preprocess_loop fmt sop up ([0..<i] @ i # [Suc i..<batch_size]) (batch\<lparr>json := []\<rparr>) w
      = (Inl e, w')"
    using rows sv rr by (intro preprocess_loop_raises_intro [where ?w1.0 = w1]) simp_all
  with i show "preprocess fmt sop batch batch_size up w = (Inl e, w')"
    by (simp add: preprocess_def upt_split_at [symmetric])
qed


lemma saves_save_ok:
  "\<forall>x\<in>set xs. enc (snd x) = None \<Longrightarrow> saves (save enc) xs files = (Inr (), files @ xs)"
  by (induction xs arbitrary: files) (auto simp: save_def)

text \<open>
  Claim C3. When \<open>preprocess\<close> returns a batch, with whatever image library, its \<open>json\<close>
  column has one record for each index below \<open>batch_size\<close>, every column of the input
  has those rows, and record \<open>i\<close> has the identifier of row \<open>i\<close> as its \<open>id\<close>, the
  formatted identifier followed by \<open>.jpg\<close> as its \<open>image\<close>, and two turns as its
  \<open>conversations\<close>: first \<open>human\<close> with the image placeholder, a newline and the user
  prompt, then \<open>gpt\<close> with the detailed caption of row \<open>i\<close>. The first turn contains the
  image placeholder.
\<close>

theorem preprocess_records:
  assumes "preprocess fmt save_op batch batch_size user_prompt w = (Inr batch', w')"
  shows "length (json batch') = batch_size
    \<and> batch_size \<le> length (imgid batch) \<and> batch_size \<le> length (detailed_caption batch)
    \<and> (\<forall>i<batch_size.
          json batch' ! i =
            \<lparr>id_field = imgid batch ! i,
             image_field = fmt (imgid batch ! i) @ ''.jpg'',
             conversations =
               [\<lparr>from_field = ''human'', value_field = ''<image>\<newline>'' @ user_prompt\<rparr>,
                \<lparr>from_field = ''gpt'', value_field = detailed_caption batch ! i\<rparr>]\<rparr>
          \<and> 1 \<le> occurrences ''<image>'' (value_field (hd (conversations (json batch' ! i)))))"
proof -
  from assms have rows: "\<forall>i<batch_size. row_in batch i"
    and js: "json batch' = map (example_of fmt user_prompt batch) [0..<batch_size]"
    by (simp_all add: preprocess_returns)
  have bound: "batch_size \<le> length (imgid batch) \<and> batch_size \<le> length (detailed_caption batch)"
  proof (cases batch_size)
    case 0
    then show ?thesis by simp
  next
    case (Suc n)
    with rows have "row_in batch n" by simp
    with Suc show ?thesis by (simp add: row_in_def)
  qed
  have img: "1 \<le> occurrences ''<image>'' (''<image>\<newline>'' @ user_prompt)"
    using occurrences_at_start [of "''<image>''" "CHR ''\<newline>'' # user_prompt"] by simp
  from js bound img show ?thesis
    by (simp add: example_of_def)
qed

theorem preprocess_records_witness:
  "preprocess (\<lambda>s. s) (save (\<lambda>_. None))
     \<lparr>imgid = [''1'', ''2''], image_col = [10::nat, 20],
      detailed_caption = [''one'', ''two''], json = []\<rparr> 2 ''Describe.'' []
   = (Inr \<lparr>imgid = [''1'', ''2''], image_col = [10, 20], detailed_caption = [''one'', ''two''],
           json =
             [\<lparr>id_field = ''1'', image_field = ''1.jpg'',
               conversations =
                 [\<lparr>from_field = ''human'', value_field = ''<image>\<newline>Describe.''\<rparr>,
                  \<lparr>from_field = ''gpt'', value_field = ''one''\<rparr>]\<rparr>,
              \<lparr>id_field = ''2'', image_field = ''2.jpg'',
               conversations =
                 [\<lparr>from_field = ''human'', value_field = ''<image>\<newline>Describe.''\<rparr>,
                  \<lparr>from_field = ''gpt'', value_field = ''two''\<rparr>]\<rparr>]\<rparr>,
      [(''llava_dataset/images/1.jpg'', 10), (''llava_dataset/images/2.jpg'', 20)])
   \<and> occurrences ''<image>'' ''<image>\<newline>Describe.'' = 1"
proof -
  have run: "preprocess (\<lambda>s. s) (save (\<lambda>_. None))
     \<lparr>imgid = [''1'', ''2''], image_col = [10::nat, 20],
      detailed_caption = [''one'', ''two''], json = []\<rparr> 2 ''Describe.'' []
   = (Inr \<lparr>imgid = [''1'', ''2''], image_col = [10, 20], detailed_caption = [''one'', ''two''],
           json =
             [\<lparr>id_field = ''1'', image_field = ''1.jpg'',
               conversations =
                 [\<lparr>from_field = ''human'', value_field = ''<image>\<newline>Describe.''\<rparr>,
                  \<lparr>from_field = ''gpt'', value_field = ''one''\<rparr>]\<rparr>,
              \<lparr>id_field = ''2'', image_field = ''2.jpg'',
               conversations =
                 [\<lparr>from_field = ''human'', value_field = ''<image>\<newline>Describe.''\<rparr>,
                  \<lparr>from_field = ''gpt'', value_field = ''two''\<rparr>]\<rparr>]\<rparr>,
      [(''llava_dataset/images/1.jpg'', 10), (''llava_dataset/images/2.jpg'', 20)])"
    by (simp add: preprocess_def getitem_def save_def upt_rec Let_def)
  from preprocess_records [OF run] run show ?thesis by simp
qed

lemma preprocess_short_batch:
  assumes len: "length (imgid b) = n" and short: "n < batch_size"
    and rows: "\<forall>j<n. row_in b j \<and> enc (image_col b ! j) = None"
  shows "preprocess fmt (save enc) b batch_size up files =
           (Inl IndexError, files @ map (file_of fmt b) [0..<n])"
proof -
  have "saves (save enc) (map (file_of fmt b) [0..<n]) files
      = (Inr (), files @ map (file_of fmt b) [0..<n])"
    using rows by (intro saves_save_ok) (simp add: file_of_def)
  moreover have "row_raises fmt (save enc) b n (files @ map (file_of fmt b) [0..<n]) IndexError
      (files @ map (file_of fmt b) [0..<n])"
    using len by (simp add: row_raises_def)
  ultimately show ?thesis
    using short rows by (auto simp: preprocess_raises)
qed

lemma preprocess_full_batch:
  assumes "\<forall>j<batch_size. row_in b j \<and> enc (image_col b ! j) = None"
  shows "preprocess fmt (save enc) b batch_size up files =
           (Inr (b\<lparr>json := map (example_of fmt up b) [0..<batch_size]\<rparr>),
            files @ map (file_of fmt b) [0..<batch_size])"
proof -
  have "saves (save enc) (map (file_of fmt b) [0..<batch_size]) files
      = (Inr (), files @ map (file_of fmt b) [0..<batch_size])"
    using assms by (intro saves_save_ok) (simp add: file_of_def)
  with assms show ?thesis by (simp add: preprocess_returns)
qed

text \<open>
  Claim C1. The loop runs over \<open>range(batch_size)\<close>, not over the rows of the batch. On
  a batch of two rows with the configured batch size of 1000, as a batched \<open>map\<close> hands
  over the last rows of a dataset, the images of both rows are saved, then indexing row 2
  raises \<open>IndexError\<close> and no batch is returned: no record for either row.
\<close>

theorem preprocess_last_batch_raises:
  "preprocess (\<lambda>s. s) (save (\<lambda>_. None))
     \<lparr>imgid = [''1'', ''2''], image_col = [10::nat, 20],
      detailed_caption = [''one'', ''two''], json = []\<rparr> 1000 ''Describe.'' []
   = (Inl IndexError,
      [(''llava_dataset/images/1.jpg'', 10), (''llava_dataset/images/2.jpg'', 20)])"
proof -
  have "\<forall>j<2. row_in \<lparr>imgid = [''1'', ''2''], image_col = [10::nat, 20],
       detailed_caption = [''one'', ''two''], json = []\<rparr> j \<and> (\<lambda>_. None) (image_col \<lparr>imgid = [''1'', ''2''], image_col = [10::nat, 20],
       detailed_caption = [''one'', ''two''], json = []\<rparr> ! j) = (None :: error option)"
    by (simp add: row_in_def)
  from preprocess_short_batch [where n = 2 and batch_size = 1000 and enc = "\<lambda>_. None", OF _ _ this]
  show ?thesis by (simp add: file_of_def upt_rec)
qed


section \<open>Library calls and their errors\<close>

lemma download_image_body:
  "requests_get url w = (Inr r, w1) \<Longrightarrow>
     download_image requests_get Image_open url w = Image_open (content r) w1"
  by (simp add: download_image_def)

lemma download_image_any_status:
  "download_image
     (\<lambda>u w. case requests_get u w of
               (res, w1) \<Rightarrow> (map_sum id (\<lambda>r. r\<lparr>status_code := f (status_code r)\<rparr>) res, w1))
     Image_open url w
   = download_image requests_get Image_open url w"
proof (cases "requests_get url w")
  case (Pair res w1)
  then show ?thesis by (cases res) (simp_all add: download_image_def)
qed

lemma download_image_error:
  "download_image requests_get Image_open url w = (Inl e, w') \<longleftrightarrow>
     requests_get url w = (Inl e, w')
     \<or> (\<exists>r w1. requests_get url w = (Inr r, w1) \<and> Image_open (content r) w1 = (Inl e, w'))"
proof (cases "requests_get url w")
  case (Pair res w1)
  then show ?thesis by (cases res) (simp_all add: download_image_def)
qed

text \<open>
  Claim C10. \<open>download_image\<close> does not look at the status of the response: whenever
  the GET request returns a response, with whatever status, the result is what the image
  decoder makes of its body, and rewriting the status codes of all responses changes
  nothing. A 404 or 500 answer therefore shows only as the decoder's error on the body of
  the error page.
\<close>

theorem download_image_ignores_status:
  "(requests_get url w = (Inr r, w1) \<longrightarrow>
      download_image requests_get Image_open url w = Image_open (content r) w1)
   \<and> download_image
        (\<lambda>u w. case requests_get u w of
                  (res, w1) \<Rightarrow> (map_sum id (\<lambda>r. r\<lparr>status_code := f (status_code r)\<rparr>) res, w1))
        Image_open url w
      = download_image requests_get Image_open url w"
  using download_image_body [of requests_get url w r w1 Image_open]
    download_image_any_status [of f requests_get Image_open url w]
  by blast

theorem download_image_ignores_status_witness:
  "(\<lambda>u n. (Inr \<lparr>status_code = 404, content = ''Not Found''\<rparr>, Suc n)) ''http://host/missing.jpg'' 0
     = (Inr \<lparr>status_code = 404, content = ''Not Found''\<rparr>, Suc 0)
   \<and> download_image (\<lambda>u n. (Inr \<lparr>status_code = 404, content = ''Not Found''\<rparr>, Suc n))
        (\<lambda>b n. (if b = ''Not Found'' then Inl UnidentifiedImageError else Inr b, Suc n))
        ''http://host/missing.jpg'' 0
      = (Inl UnidentifiedImageError, Suc (Suc 0))"
  using download_image_ignores_status [where requests_get =
        "\<lambda>u n. (Inr \<lparr>status_code = 404, content = ''Not Found''\<rparr>, Suc n)"
      and url = "''http://host/missing.jpg''" and w = 0
      and r = "\<lparr>status_code = 404, content = ''Not Found''\<rparr>" and ?w1.0 = "Suc 0"
      and Image_open =
        "\<lambda>b n. (if b = ''Not Found'' then Inl UnidentifiedImageError else Inr b, Suc n)"]
  by simp

lemma inference_error:
  "inference lib model tokenizer image_processor image' prompt cfg w = (Inl e, w') \<longleftrightarrow>
     tokenizer_image_token lib prompt tokenizer w = (Inl e, w')
     \<or> (\<exists>t w1. tokenizer_image_token lib prompt tokenizer w = (Inr t, w1) \<and>
          (unsqueeze lib t 0 w1 = (Inl e, w')
           \<or> (\<exists>u w2. unsqueeze lib t 0 w1 = (Inr u, w2) \<and>
                (cuda lib u w2 = (Inl e, w')
                 \<or> (\<exists>input_ids w3. cuda lib u w2 = (Inr input_ids, w3) \<and>
                      (process_images lib [image'] image_processor model w3 = (Inl e, w')
                       \<or> (\<exists>p w4. process_images lib [image'] image_processor model w3 = (Inr p, w4) \<and>
                            (to_device lib p model w4 = (Inl e, w')
                             \<or> (\<exists>image_tensor w5. to_device lib p model w4 = (Inr image_tensor, w5) \<and>
                                  (generate lib model input_ids image_tensor [image'] cfg w5
                                     = (Inl e, w')
                                   \<or> (\<exists>output_ids w6.
                                        generate lib model input_ids image_tensor [image'] cfg w5
                                          = (Inr output_ids, w6)
                                        \<and> batch_decode lib tokenizer output_ids w6
                                            = (Inl e, w'))))))))))))"
  by (simp add: inference_def split: sum.splits prod.splits)

lemma prepare_dataset_path_error:
  "prepare_dataset_path exists_op mkdir_op d w = (Inl e, w') \<longleftrightarrow>
     exists_op d w = (Inl e, w')
     \<or> (\<exists>w1. exists_op d w = (Inr False, w1) \<and> mkdir_op d w1 = (Inl e, w'))
     \<or> (\<exists>w1 w2. (exists_op d w = (Inr True, w2)
                   \<or> exists_op d w = (Inr False, w1) \<and> mkdir_op d w1 = (Inr (), w2))
              \<and> (exists_op (d @ [''images'']) w2 = (Inl e, w')
                  \<or> (\<exists>w3. exists_op (d @ [''images'']) w2 = (Inr False, w3)
                          \<and> mkdir_op (d @ [''images'']) w3 = (Inl e, w'))))"
  by (auto simp: prepare_dataset_path_def split: sum.splits prod.splits if_splits)

text \<open>
  Claim C7. The generation configuration has exactly the keys \<open>do_sample\<close>, set to
  \<open>False\<close>, and \<open>max_new_tokens\<close>, set to 256, and no \<open>temperature\<close>; it is the
  configuration the one call of \<open>generate\<close> in the inference pipeline receives.
\<close>

theorem generation_config_contents:
  "map fst generation_config = [''do_sample'', ''max_new_tokens'']
   \<and> map_of generation_config ''do_sample'' = Some (PyBool False)
   \<and> map_of generation_config ''max_new_tokens'' = Some (PyInt 256)
   \<and> map_of generation_config ''temperature'' = None
   \<and> dom (map_of generation_config) = {''do_sample'', ''max_new_tokens''}
   \<and> (tokenizer_image_token lib prompt tokenizer w = (Inr t, w1)
        \<and> unsqueeze lib t 0 w1 = (Inr u, w2)
        \<and> cuda lib u w2 = (Inr input_ids, w3)
        \<and> process_images lib [image'] image_processor model w3 = (Inr p, w4)
        \<and> to_device lib p model w4 = (Inr image_tensor, w5)
        \<longrightarrow> run_inference lib model tokenizer image_processor image' prompt w =
              (case generate lib model input_ids image_tensor [image'] generation_config w5 of
                 (Inl e, w6) \<Rightarrow> (Inl e, w6)
               | (Inr output_ids, w6) \<Rightarrow> batch_decode lib tokenizer output_ids w6))"
proof -
  have "dom (map_of generation_config) = {''do_sample'', ''max_new_tokens''}"
    by (auto simp: generation_config_def split: if_splits)
  moreover have "map_of generation_config ''temperature'' = None"
    by (simp add: generation_config_def)
  ultimately show ?thesis
    by (simp add: run_inference_def inference_def) (simp add: generation_config_def)
qed

theorem generation_config_contents_witness:
  "run_inference
     \<lparr>tokenizer_image_token = (\<lambda>prompt tok n. (Inr [length prompt], Suc n)),
      unsqueeze = (\<lambda>t k n. (Inr t, Suc n)),
      cuda = (\<lambda>t n. (Inr t, Suc n)),
      process_images = (\<lambda>imgs ip m n. (Inr imgs, Suc n)),
      to_device = (\<lambda>t m n. (Inr t, Suc n)),
      generate = (\<lambda>m ids imgs sizes cfg n.
         (if map_of cfg ''do_sample'' = Some (PyBool False) then Inr (take 256 ids)
          else Inl (OtherError ''sampling''), Suc n)),
      batch_decode = (\<lambda>tok out n. (Inr [''caption''], Suc n))\<rparr>
     () () () (7::nat) ''prompt'' 0
   = (Inr [''caption''], 7)"
  using generation_config_contents [where lib =
      "\<lparr>tokenizer_image_token = (\<lambda>prompt tok n. (Inr [length prompt], Suc n)),
        unsqueeze = (\<lambda>t k n. (Inr t, Suc n)),
        cuda = (\<lambda>t n. (Inr t, Suc n)),
        process_images = (\<lambda>imgs ip m n. (Inr imgs, Suc n)),
        to_device = (\<lambda>t m n. (Inr t, Suc n)),
        generate = (\<lambda>m ids imgs sizes cfg n.
           (if map_of cfg ''do_sample'' = Some (PyBool False) then Inr (take 256 ids)
            else Inl (OtherError ''sampling''), Suc n)),
        batch_decode = (\<lambda>tok out n. (Inr [''caption''], Suc n))\<rparr>"
      and prompt = "''prompt''" and tokenizer = "()" and t = "[6]" and u = "[6]"
      and input_ids = "[6]" and image' = 7 and image_processor = "()" and model = "()"
      and p = "[7]" and image_tensor = "[7]" and w = 0 and ?w1.0 = 1 and ?w2.0 = 2
      and ?w3.0 = 3 and ?w4.0 = 4 and ?w5.0 = 5]
  by simp


lemma patched_fn_closed:
  "patched_fn roles header source get_conversation =
     (header
      @ (if get_conversation
         then concat (map (\<lambda>t. ''<|eot_id|>'' @ role_of roles (from_field t) @ value_field t) source)
         else [])
      @ ''<|eot_id|>'',
      map (\<lambda>t. t\<lparr>value_field := ''<|eot_id|>'' @ role_of roles (from_field t) @ value_field t\<rparr>)
        source)"
proof -
  have "fst (patched_fn roles header source get_conversation) =
      header
      @ (if get_conversation
         then concat (map (\<lambda>t. ''<|eot_id|>'' @ role_of roles (from_field t) @ value_field t) source)
         else [])
      @ ''<|eot_id|>''"
    by (cases get_conversation)
       (simp_all add: patched_fn_fst_True patched_fn_fst_False EOS_TOKEN_def)
  moreover have "snd (patched_fn roles header source get_conversation) =
      map (\<lambda>t. t\<lparr>value_field := ''<|eot_id|>'' @ role_of roles (from_field t) @ value_field t\<rparr>)
        source"
    by (simp add: patched_fn_snd EOS_TOKEN_def)
  ultimately show ?thesis by (metis prod.collapse)
qed

text \<open>
  Claim C6. No function of the notebooks handles an exception, calls a library again
  after a failure or recovers from one. \<open>download_image\<close>, \<open>inference\<close> and
  \<open>prepare_dataset_path\<close> end in an error exactly when one of their library calls,
  reached after the calls before it returned, raised that error, and they end in the state
  that call left: no call is made after it. \<open>preprocess\<close> ends in an error exactly when,
  after one \<open>save\<close> for each earlier row, the loop body of a row raises: with the error
  \<open>save\<close> raised and the state it left, or with \<open>IndexError\<close> for a row that a column
  lacks. \<open>preprocess_prompt\<close> and \<open>patched_fn\<close> call no library function and return
  their value on every input.
\<close>

theorem errors_propagate:
  "(download_image requests_get Image_open url w = (Inl e1, w') \<longleftrightarrow>
      requests_get url w = (Inl e1, w')
      \<or> (\<exists>r w1. requests_get url w = (Inr r, w1) \<and> Image_open (content r) w1 = (Inl e1, w')))
   \<and> (inference lib model tokenizer image_processor image' prompt cfg v = (Inl e2, v') \<longleftrightarrow>
      tokenizer_image_token lib prompt tokenizer v = (Inl e2, v')
      \<or> (\<exists>t v1. tokenizer_image_token lib prompt tokenizer v = (Inr t, v1) \<and>
           (unsqueeze lib t 0 v1 = (Inl e2, v')
            \<or> (\<exists>u v2. unsqueeze lib t 0 v1 = (Inr u, v2) \<and>
                 (cuda lib u v2 = (Inl e2, v')
                  \<or> (\<exists>input_ids v3. cuda lib u v2 = (Inr input_ids, v3) \<and>
                       (process_images lib [image'] image_processor model v3 = (Inl e2, v')
                        \<or> (\<exists>p v4. process_images lib [image'] image_processor model v3
                                     = (Inr p, v4) \<and>
                             (to_device lib p model v4 = (Inl e2, v')
                              \<or> (\<exists>image_tensor v5.
                                   to_device lib p model v4 = (Inr image_tensor, v5) \<and>
                                   (generate lib model input_ids image_tensor [image'] cfg v5
                                      = (Inl e2, v')
                                    \<or> (\<exists>output_ids v6.
                                         generate lib model input_ids image_tensor [image'] cfg v5
                                           = (Inr output_ids, v6)
                                         \<and> batch_decode lib tokenizer output_ids v6
                                             = (Inl e2, v')))))))))))))
   \<and> (prepare_dataset_path exists_op mkdir_op dataset_dir x = (Inl e3, x') \<longleftrightarrow>
      exists_op dataset_dir x = (Inl e3, x')
      \<or> (\<exists>x1. exists_op dataset_dir x = (Inr False, x1) \<and> mkdir_op dataset_dir x1 = (Inl e3, x'))
      \<or> (\<exists>x1 x2. (exists_op dataset_dir x = (Inr True, x2)
                    \<or> exists_op dataset_dir x = (Inr False, x1)
                       \<and> mkdir_op dataset_dir x1 = (Inr (), x2))
               \<and> (exists_op (dataset_dir @ [''images'']) x2 = (Inl e3, x')
                   \<or> (\<exists>x3. exists_op (dataset_dir @ [''images'']) x2 = (Inr False, x3)
                           \<and> mkdir_op (dataset_dir @ [''images'']) x3 = (Inl e3, x')))))
   \<and> (preprocess fmt save_op batch batch_size user_prompt y = (Inl e4, y') \<longleftrightarrow>
      (\<exists>i<batch_size. \<exists>y1. (\<forall>j<i. row_in batch j)
         \<and> saves save_op (map (file_of fmt batch) [0..<i]) y = (Inr (), y1)
         \<and> row_raises fmt save_op batch i y1 e4 y'))
   \<and> preprocess_prompt system_prompt user_prompt' =
       ''<|begin_of_text|><|start_header_id|>system<|end_header_id|>\<newline>\<newline>'' @
       system_prompt @
       ''<|eot_id|><|start_header_id|>user<|end_header_id|>\<newline>\<newline><image>\<newline>'' @
       user_prompt' @
       ''<|eot_id|><|start_header_id|>assistant<|end_header_id|>\<newline>\<newline>''
   \<and> patched_fn roles header source get_conversation =
       (header
        @ (if get_conversation
           then concat (map (\<lambda>t. ''<|eot_id|>'' @ role_of roles (from_field t) @ value_field t)
                          source)
           else [])
        @ ''<|eot_id|>'',
        map (\<lambda>t. t\<lparr>value_field := ''<|eot_id|>'' @ role_of roles (from_field t) @ value_field t\<rparr>)
          source)"
  using download_image_error [of requests_get Image_open url w e1 w']
    inference_error [of lib model tokenizer image_processor image' prompt cfg v e2 v']
    prepare_dataset_path_error [of exists_op mkdir_op dataset_dir x e3 x']
    preprocess_raises [of fmt save_op batch batch_size user_prompt y e4 y']
    preprocess_prompt_concat [of system_prompt user_prompt']
    patched_fn_closed [of roles header source get_conversation]
  by (simp only:) 

theorem errors_propagate_witness:
  "download_image (\<lambda>u n. (Inl (OtherError ''connection refused''), Suc n))
      (\<lambda>b n. (Inr b, Suc n)) ''http://host/a.jpg'' 0
     = (Inl (OtherError ''connection refused''), Suc 0)
   \<and> inference
       \<lparr>tokenizer_image_token = (\<lambda>prompt tok n. (Inr [length prompt], Suc n)),
        unsqueeze = (\<lambda>t k n. (Inr t, Suc n)),
        cuda = (\<lambda>t n. (Inr t, Suc n)),
        process_images = (\<lambda>imgs ip m n. (Inr imgs, Suc n)),
        to_device = (\<lambda>t m n. (Inr t, Suc n)),
        generate = (\<lambda>m ids imgs sizes cfg n. (Inl (OtherError ''CUDA out of memory''), Suc n)),
        batch_decode = (\<lambda>tok out n. (Inr [''caption''], Suc n))\<rparr>
       () () () (7::nat) ''prompt'' generation_config 0
     = (Inl (OtherError ''CUDA out of memory''), 6)
   \<and> prepare_dataset_path (\<lambda>p w. (Inr (p \<in> set w), w))
       (\<lambda>p w. if p = [''llava_dataset'', ''images'']
              then (Inl (OtherError ''No space left on device''), w)
              else (Inr (), p # w))
       [''llava_dataset''] []
     = (Inl (OtherError ''No space left on device''), [[''llava_dataset'']])
   \<and> preprocess (\<lambda>s. s)
       (\<lambda>im path n. (if im = 20 then Inl (OtherError ''cannot write mode RGBA as JPEG'')
                      else Inr (), Suc n))
       \<lparr>imgid = [''1'', ''2'', ''3''], image_col = [10::nat, 20, 30],
        detailed_caption = [''one'', ''two'', ''three''], json = []\<rparr> 3 ''Describe.'' 0
     = (Inl (OtherError ''cannot write mode RGBA as JPEG''), Suc (Suc 0))"
proof -
  note t = errors_propagate [where requests_get = "\<lambda>u n. (Inl (OtherError ''connection refused''), Suc n)"
      and Image_open = "\<lambda>b n. (Inr b, Suc n)" and url = "''http://host/a.jpg''" and w = 0
      and ?e1.0 = "OtherError ''connection refused''" and w' = "Suc 0"
      and lib = "\<lparr>tokenizer_image_token = (\<lambda>prompt tok n. (Inr [length prompt], Suc n)),
        unsqueeze = (\<lambda>t k n. (Inr t, Suc n)),
        cuda = (\<lambda>t n. (Inr t, Suc n)),
        process_images = (\<lambda>imgs ip m n. (Inr imgs, Suc n)),
        to_device = (\<lambda>t m n. (Inr t, Suc n)),
        generate = (\<lambda>m ids imgs sizes cfg n. (Inl (OtherError ''CUDA out of memory''), Suc n)),
        batch_decode = (\<lambda>tok out n. (Inr [''caption''], Suc n))\<rparr>"
      and model = "()" and tokenizer = "()" and image_processor = "()" and image' = "7::nat"
      and prompt = "''prompt''" and cfg = generation_config and v = 0 and v' = 6
      and ?e2.0 = "OtherError ''CUDA out of memory''"
      and exists_op = "\<lambda>p w. (Inr (p \<in> set w), w)"
      and mkdir_op = "\<lambda>p w. if p = [''llava_dataset'', ''images'']
              then (Inl (OtherError ''No space left on device''), w)
              else (Inr (), p # w)"
      and dataset_dir = "[''llava_dataset'']" and x = "[]" and x' = "[[''llava_dataset'']]"
      and ?e3.0 = "OtherError ''No space left on device''"
      and fmt = "\<lambda>s. s"
      and save_op = "\<lambda>im path n. (if im = 20
           then Inl (OtherError ''cannot write mode RGBA as JPEG'') else Inr (), Suc n)"
      and batch = "\<lparr>imgid = [''1'', ''2'', ''3''], image_col = [10::nat, 20, 30],
        detailed_caption = [''one'', ''two'', ''three''], json = []\<rparr>"
      and batch_size = 3 and user_prompt = "''Describe.''" and y = 0 and y' = "Suc (Suc 0)"
      and ?e4.0 = "OtherError ''cannot write mode RGBA as JPEG''"]
  have row: "\<exists>i<3. \<exists>y1. (\<forall>j<i. row_in \<lparr>imgid = [''1'', ''2'', ''3''], image_col = [10::nat, 20, 30],
        detailed_caption = [''one'', ''two'', ''three''], json = []\<rparr> j)
      \<and> saves (\<lambda>im path n. (if im = 20
           then Inl (OtherError ''cannot write mode RGBA as JPEG'') else Inr (), Suc n))
          (map (file_of (\<lambda>s. s) \<lparr>imgid = [''1'', ''2'', ''3''], image_col = [10::nat, 20, 30],
        detailed_caption = [''one'', ''two'', ''three''], json = []\<rparr>) [0..<i]) 0 = (Inr (), y1)
      \<and> row_raises (\<lambda>s. s) (\<lambda>im path n. (if im = 20
           then Inl (OtherError ''cannot write mode RGBA as JPEG'') else Inr (), Suc n))
          \<lparr>imgid = [''1'', ''2'', ''3''], image_col = [10::nat, 20, 30],
        detailed_caption = [''one'', ''two'', ''three''], json = []\<rparr> i y1
          (OtherError ''cannot write mode RGBA as JPEG'') (Suc (Suc 0))"
    by (intro exI [of _ 1] exI [of _ "Suc 0"]) (simp add: row_in_def row_raises_def file_of_def)
  from t row show ?thesis by simp
qed


section \<open>The dataset directory\<close>

lemma node_at_mono:
  "fs \<subseteq>\<^sub>m fs' \<Longrightarrow> node_at fs p = Some n \<Longrightarrow> node_at fs' p = Some n"
  by (auto simp: node_at_def map_le_def dom_def split: if_splits)

lemma walk_append:
  "walk fs cur (xs @ ys) =
     (case walk fs cur xs of Inl e \<Rightarrow> Inl e | Inr loc \<Rightarrow> walk fs loc ys)"
  by (induction xs arbitrary: cur) (auto split: option.splits node.splits)

lemma walk_mono:
  "fs \<subseteq>\<^sub>m fs' \<Longrightarrow> walk fs cur p = Inr loc \<Longrightarrow> walk fs' cur p = Inr loc"
proof (induction p arbitrary: cur)
  case Nil
  then show ?case by simp
next
  case (Cons c cs)
  from Cons.prems(2) have d: "node_at fs cur = Some Dir"
    by (auto split: option.splits node.splits)
  with Cons.prems(1) have "node_at fs' cur = Some Dir" by (rule node_at_mono)
  with d Cons show ?case by simp
qed

lemma walk_plain:
  "''..'' \<notin> set p \<Longrightarrow> walk fs cur p = Inr loc \<Longrightarrow> loc = cur @ p"
proof (induction p arbitrary: cur)
  case Nil
  then show ?case by simp
next
  case (Cons c cs)
  from Cons.prems have "walk fs (cur @ [c]) cs = Inr loc"
    by (auto split: option.splits node.splits)
  moreover from Cons.prems have "''..'' \<notin> set cs" by simp
  ultimately have "loc = (cur @ [c]) @ cs" by (rule Cons.IH [rotated])
  then show ?case by simp
qed

lemma stat_mono:
  assumes "fs \<subseteq>\<^sub>m fs'" and "stat fs p = Inr n"
  shows "stat fs' p = Inr n"
proof -
  from assms(2) obtain loc where w: "walk fs [] p = Inr loc" and n: "node_at fs loc = Some n"
    by (auto simp: stat_def split: sum.splits option.splits)
  from assms(1) w have "walk fs' [] p = Inr loc" by (rule walk_mono)
  moreover from assms(1) n have "node_at fs' loc = Some n" by (rule node_at_mono)
  ultimately show ?thesis by (simp add: stat_def)
qed

lemma stat_snoc:
  "stat fs (q @ [x]) =
     (case walk fs [] q of
        Inl e \<Rightarrow> Inl e
      | Inr loc \<Rightarrow>
          (case node_at fs loc of
             None \<Rightarrow> Inl FileNotFoundError
           | Some File \<Rightarrow> Inl NotADirectoryError
           | Some Dir \<Rightarrow>
               (case node_at fs (if x = ''..'' then butlast loc else loc @ [x]) of
                  None \<Rightarrow> Inl FileNotFoundError
                | Some n \<Rightarrow> Inr n)))"
  by (auto simp: stat_def walk_append split: sum.splits option.splits node.splits)

lemma os_mkdir_snoc:
  "os_mkdir (q @ [x]) fs =
     (case walk fs [] q of
        Inl e \<Rightarrow> (Inl e, fs)
      | Inr loc \<Rightarrow>
          (case node_at fs loc of
             None \<Rightarrow> (Inl FileNotFoundError, fs)
           | Some File \<Rightarrow> (Inl NotADirectoryError, fs)
           | Some Dir \<Rightarrow>
               if x = ''..'' then (Inl FileExistsError, fs)
               else (case fs (loc @ [x]) of
                       Some n \<Rightarrow> (Inl FileExistsError, fs)
                     | None \<Rightarrow> (Inr (), fs(loc @ [x] \<mapsto> Dir)))))"
  by (simp add: os_mkdir_def split: sum.splits option.splits node.splits)

lemma os_mkdir_mono: "fs \<subseteq>\<^sub>m snd (os_mkdir p fs)"
  by (auto simp: os_mkdir_def map_le_def split: sum.splits option.splits node.splits)

lemma os_mkdir_error: "os_mkdir p fs = (Inl e, fs') \<Longrightarrow> fs' = fs"
  by (auto simp: os_mkdir_def split: sum.splits option.splits node.splits if_splits)

lemma os_mkdir_made:
  assumes "os_mkdir p fs = (Inr u, fs')"
  shows "stat fs' p = Inr Dir"
proof (cases p rule: rev_cases)
  case Nil
  with assms show ?thesis by (simp add: os_mkdir_def)
next
  case (snoc q x)
  from assms snoc obtain loc where w: "walk fs [] q = Inr loc" and d: "node_at fs loc = Some Dir"
    and x: "x \<noteq> ''..''" and new: "fs' = fs(loc @ [x] \<mapsto> Dir)" and none: "fs (loc @ [x]) = None"
    by (auto simp: os_mkdir_snoc split: sum.splits option.splits node.splits if_splits)
  from none new have le: "fs \<subseteq>\<^sub>m fs'" by (auto simp: map_le_def)
  from le w have "walk fs' [] q = Inr loc" by (rule walk_mono)
  moreover from le d have "node_at fs' loc = Some Dir" by (rule node_at_mono)
  moreover from new have "node_at fs' (loc @ [x]) = Some Dir" by (simp add: node_at_def)
  ultimately show ?thesis using snoc x by (simp add: stat_snoc)
qed

lemma mkdir_single:
  "mkdir p False exist_ok fs =
     (case os_mkdir p fs of
        (Inr u, fs') \<Rightarrow> (Inr u, fs')
      | (Inl e, fs') \<Rightarrow>
          if e = FileNotFoundError then (Inl e, fs')
          else if \<not> exist_ok \<or> \<not> is_dir fs' p then (Inl e, fs')
          else (Inr (), fs'))"
  by (subst mkdir.simps) (simp split: prod.splits sum.splits)

lemma mkdir_mono: "fs \<subseteq>\<^sub>m snd (mkdir p parents exist_ok fs)"
proof (induction p parents exist_ok fs rule: mkdir.induct)
  case (1 p parents exist_ok fs)
  obtain r fs1 where o: "os_mkdir p fs = (r, fs1)" by (cases "os_mkdir p fs")
  from os_mkdir_mono [of fs p] o have le1: "fs \<subseteq>\<^sub>m fs1" by simp
  show ?case
  proof (cases r)
    case (Inr u)
    with o le1 show ?thesis by (subst mkdir.simps) simp
  next
    case (Inl e)
    show ?thesis
    proof (cases "e = FileNotFoundError \<and> \<not> (\<not> parents \<or> butlast p = p)")
      case False
      with o Inl le1 show ?thesis by (subst mkdir.simps) auto
    next
      case True
      obtain r2 fs2 where m: "mkdir (butlast p) True True fs1 = (r2, fs2)"
        by (cases "mkdir (butlast p) True True fs1")
      from True have c1: "e = FileNotFoundError" and c2: "\<not> (\<not> parents \<or> butlast p = p)" by simp_all
      from "1.IH"(1) [OF o [symmetric] Inl c1 c2] m have le2: "fs1 \<subseteq>\<^sub>m fs2" by simp
      show ?thesis
      proof (cases r2)
        case (Inl e2)
        with o \<open>r = Inl e\<close> True m le1 le2 show ?thesis
          by (subst mkdir.simps) (auto intro: map_le_trans)
      next
        case (Inr u2)
        from "1.IH"(2) [OF o [symmetric] \<open>r = Inl e\<close> c1 c2 m [symmetric] Inr]
        have "fs2 \<subseteq>\<^sub>m snd (mkdir p False exist_ok fs2)" .
        with le1 le2 have "fs \<subseteq>\<^sub>m snd (mkdir p False exist_ok fs2)"
          by (blast intro: map_le_trans)
        with o \<open>r = Inl e\<close> True m Inr show ?thesis
          by (subst mkdir.simps) auto
      qed
    qed
  qed
qed

lemma mkdir_single_made:
  assumes "mkdir p False exist_ok fs = (Inr u, fs')"
  shows "stat fs' p = Inr Dir"
proof -
  obtain r fs1 where o: "os_mkdir p fs = (r, fs1)" by (cases "os_mkdir p fs")
  show ?thesis
  proof (cases r)
    case (Inr v)
    with o assms have "os_mkdir p fs = (Inr v, fs')" by (simp add: mkdir_single)
    then show ?thesis by (rule os_mkdir_made)
  next
    case (Inl e)
    with o assms show ?thesis
      by (auto simp: mkdir_single is_dir_def split: if_splits)
  qed
qed

lemma mkdir_made:
  assumes "mkdir p parents exist_ok fs = (Inr u, fs')"
  shows "stat fs' p = Inr Dir"
proof (cases parents)
  case False
  with assms show ?thesis by (auto intro: mkdir_single_made)
next
  case True
  obtain r fs1 where o: "os_mkdir p fs = (r, fs1)" by (cases "os_mkdir p fs")
  show ?thesis
  proof (cases r)
    case (Inr v)
    with o assms have "os_mkdir p fs = (Inr v, fs')" by (subst (asm) mkdir.simps) simp
    then show ?thesis by (rule os_mkdir_made)
  next
    case (Inl e)
    show ?thesis
    proof (cases "e = FileNotFoundError")
      case False
      with o Inl assms show ?thesis
        by (subst (asm) mkdir.simps) (auto simp: is_dir_def split: if_splits)
    next
      case fnf: True
      obtain r2 fs2 where m: "mkdir (butlast p) True True fs1 = (r2, fs2)"
        by (cases "mkdir (butlast p) True True fs1")
      from assms o Inl fnf True m have "mkdir p False exist_ok fs2 = (Inr u, fs')"
        by (subst (asm) mkdir.simps) (auto split: if_splits sum.splits)
      then show ?thesis by (rule mkdir_single_made)
    qed
  qed
qed

lemma walk_wf:
  "wf_fs fs \<Longrightarrow> ''..'' \<notin> set p \<Longrightarrow> node_at fs p = Some n \<Longrightarrow> walk fs [] p = Inr p"
proof (induction p arbitrary: n rule: rev_induct)
  case Nil
  show ?case by simp
next
  case (snoc x q)
  from snoc.prems(3) have "fs (q @ [x]) \<noteq> None" by (simp add: node_at_def)
  with snoc.prems(1) have d: "node_at fs q = Some Dir" by (auto simp: wf_fs_def)
  with snoc have "walk fs [] q = Inr q" by simp
  moreover from snoc.prems(2) have "x \<noteq> ''..''" by auto
  ultimately show ?case using d by (simp add: walk_append)
qed

lemma stat_wf:
  assumes "wf_fs fs" and "''..'' \<notin> set p" and "node_at fs p = Some n"
  shows "stat fs p = Inr n"
  using walk_wf [OF assms] assms(3) by (simp add: stat_def)

lemma stat_plain:
  assumes "''..'' \<notin> set p" and "stat fs p = Inr n"
  shows "walk fs [] p = Inr p \<and> node_at fs p = Some n"
proof -
  from assms(2) obtain loc where w: "walk fs [] p = Inr loc" and n: "node_at fs loc = Some n"
    by (auto simp: stat_def split: sum.splits option.splits)
  from walk_plain [OF assms(1) w] w n show ?thesis by simp
qed

lemma os_mkdir_not_found:
  assumes "os_mkdir (q @ [x]) fs = (Inl FileNotFoundError, fs')"
  shows "stat fs q = Inl FileNotFoundError"
  using assms
  by (auto simp: os_mkdir_snoc stat_def split: sum.splits option.splits node.splits if_splits)

lemma os_mkdir_plain:
  assumes "''..'' \<notin> set (q @ [x])" and "stat fs q = Inr Dir"
  shows "os_mkdir (q @ [x]) fs =
           (case fs (q @ [x]) of
              Some n \<Rightarrow> (Inl FileExistsError, fs)
            | None \<Rightarrow> (Inr (), fs(q @ [x] \<mapsto> Dir)))"
proof -
  from assms have "walk fs [] q = Inr q \<and> node_at fs q = Some Dir"
    by (intro stat_plain) simp_all
  moreover from assms(1) have "x \<noteq> ''..''" by auto
  ultimately show ?thesis by (simp add: os_mkdir_snoc)
qed

lemma os_mkdir_frame:
  assumes "''..'' \<notin> set p"
  shows "snd (os_mkdir p fs) r = fs r
       \<or> fs r = None \<and> snd (os_mkdir p fs) r = Some Dir \<and> r = p"
proof (cases p rule: rev_cases)
  case Nil
  then show ?thesis by (simp add: os_mkdir_def)
next
  case (snoc q x)
  show ?thesis
  proof (cases "walk fs [] q")
    case (Inl e)
    with snoc show ?thesis by (simp add: os_mkdir_snoc)
  next
    case (Inr loc)
    with assms snoc have "loc = q" using walk_plain [of q fs "[]" loc] by simp
    with Inr snoc show ?thesis
      by (auto simp: os_mkdir_snoc split: option.splits node.splits)
  qed
qed

lemma mkdir_single_frame:
  assumes "''..'' \<notin> set p"
  shows "snd (mkdir p False exist_ok fs) r = fs r
       \<or> fs r = None \<and> snd (mkdir p False exist_ok fs) r = Some Dir \<and> r = p"
proof -
  obtain res fs1 where o: "os_mkdir p fs = (res, fs1)" by (cases "os_mkdir p fs")
  show ?thesis
  proof (cases res)
    case (Inl e)
    with o have "fs1 = fs" by (auto dest: os_mkdir_error)
    with o Inl show ?thesis by (simp add: mkdir_single)
  next
    case (Inr u)
    with o have "snd (mkdir p False exist_ok fs) = snd (os_mkdir p fs)"
      by (simp add: mkdir_single)
    with os_mkdir_frame [OF assms, of fs r] show ?thesis by simp
  qed
qed

lemma mkdir_parents_snoc:
  "mkdir (q @ [x]) True exist_ok fs =
     (case os_mkdir (q @ [x]) fs of
        (Inr u, fs') \<Rightarrow> (Inr u, fs')
      | (Inl e, fs') \<Rightarrow>
          if e = FileNotFoundError then
            (case mkdir q True True fs' of
               (Inl e', fs'') \<Rightarrow> (Inl e', fs'')
             | (Inr u, fs'') \<Rightarrow> mkdir (q @ [x]) False exist_ok fs'')
          else if \<not> exist_ok \<or> \<not> is_dir fs' (q @ [x]) then (Inl e, fs')
          else (Inr (), fs'))"
  by (subst mkdir.simps) (simp split: prod.splits sum.splits)

lemma mkdir_root:
  "mkdir [] parents exist_ok fs = (if exist_ok then (Inr (), fs) else (Inl FileExistsError, fs))"
  by (subst mkdir.simps) (simp add: os_mkdir_def is_dir_def stat_def node_at_def)

lemma mkdir_plain_props:
  assumes "''..'' \<notin> set p"
  shows "(\<forall>r. snd (mkdir p True exist_ok fs) r = fs r
            \<or> fs r = None \<and> snd (mkdir p True exist_ok fs) r = Some Dir \<and> prefix r p)
       \<and> (wf_fs fs \<longrightarrow> (\<exists>e. stat fs p = Inl e) \<longrightarrow> (\<exists>e. fst (mkdir p True exist_ok fs) = Inl e)
            \<longrightarrow> snd (mkdir p True exist_ok fs) = fs)"
  using assms
proof (induction p arbitrary: exist_ok rule: rev_induct)
  case Nil
  show ?case by (simp add: mkdir_root)
next
  case (snoc x q)
  from snoc.prems have plain_q: "''..'' \<notin> set q" by simp
  obtain res fs1 where o: "os_mkdir (q @ [x]) fs = (res, fs1)" by (cases "os_mkdir (q @ [x]) fs")
  show ?case
  proof (cases res)
    case (Inr u)
    with o have m: "mkdir (q @ [x]) True exist_ok fs = os_mkdir (q @ [x]) fs"
      by (simp add: mkdir_parents_snoc)
    from os_mkdir_frame [OF snoc.prems, of fs] have
      "\<forall>r. snd (os_mkdir (q @ [x]) fs) r = fs r
          \<or> fs r = None \<and> snd (os_mkdir (q @ [x]) fs) r = Some Dir \<and> prefix r (q @ [x])"
      by auto
    with m o Inr show ?thesis by simp
  next
    case (Inl e)
    with o have same: "fs1 = fs" by (auto dest: os_mkdir_error)
    show ?thesis
    proof (cases "e = FileNotFoundError")
      case False
      with o Inl same show ?thesis by (simp add: mkdir_parents_snoc)
    next
      case True
      obtain r2 fs2 where par: "mkdir q True True fs = (r2, fs2)" by (cases "mkdir q True True fs")
      from snoc.IH [OF plain_q, of True] par have
        frame_q: "\<forall>r. fs2 r = fs r \<or> fs r = None \<and> fs2 r = Some Dir \<and> prefix r q"
        and fail_q: "wf_fs fs \<longrightarrow> (\<exists>e. stat fs q = Inl e) \<longrightarrow> (\<exists>e. r2 = Inl e) \<longrightarrow> fs2 = fs"
        by simp_all
      from o Inl True same have nf: "stat fs q = Inl FileNotFoundError"
        by (auto dest: os_mkdir_not_found)
      show ?thesis
      proof (cases r2)
        case (Inl e2)
        with o \<open>res = Inl e\<close> True same par
        have m: "mkdir (q @ [x]) True exist_ok fs = (Inl e2, fs2)"
          by (simp add: mkdir_parents_snoc)
        from frame_q have "\<forall>r. fs2 r = fs r \<or> fs r = None \<and> fs2 r = Some Dir \<and> prefix r (q @ [x])"
          by auto
        moreover from fail_q nf Inl have "wf_fs fs \<longrightarrow> fs2 = fs" by simp
        ultimately show ?thesis using m by simp
      next
        case (Inr u2)
        with o \<open>res = Inl e\<close> True same par
        have m: "mkdir (q @ [x]) True exist_ok fs = mkdir (q @ [x]) False exist_ok fs2"
          by (simp add: mkdir_parents_snoc)
        from par Inr have dir: "stat fs2 q = Inr Dir" by (auto intro: mkdir_made)
        from frame_q have keep: "fs2 (q @ [x]) = fs (q @ [x])"
          by (auto dest: spec [of _ "q @ [x]"])
        have frame: "\<forall>r. snd (mkdir (q @ [x]) False exist_ok fs2) r = fs r
            \<or> fs r = None \<and> snd (mkdir (q @ [x]) False exist_ok fs2) r = Some Dir
               \<and> prefix r (q @ [x])"
        proof
          fix r
          from mkdir_single_frame [OF snoc.prems, of exist_ok fs2 r] frame_q keep
          show "snd (mkdir (q @ [x]) False exist_ok fs2) r = fs r
            \<or> fs r = None \<and> snd (mkdir (q @ [x]) False exist_ok fs2) r = Some Dir
               \<and> prefix r (q @ [x])"
            by (cases "r = q @ [x]") (auto dest: spec [of _ r])
        qed
        have fail: "wf_fs fs \<longrightarrow> (\<exists>e. stat fs (q @ [x]) = Inl e)
            \<longrightarrow> (\<exists>e. fst (mkdir (q @ [x]) False exist_ok fs2) = Inl e)
            \<longrightarrow> snd (mkdir (q @ [x]) False exist_ok fs2) = fs"
        proof (intro impI)
          assume wf: "wf_fs fs" and miss: "\<exists>e. stat fs (q @ [x]) = Inl e"
            and failed: "\<exists>e. fst (mkdir (q @ [x]) False exist_ok fs2) = Inl e"
          have "fs (q @ [x]) = None"
          proof (rule ccontr)
            assume "fs (q @ [x]) \<noteq> None"
            then obtain n where "node_at fs (q @ [x]) = Some n" by (auto simp: node_at_def)
            with wf snoc.prems have "stat fs (q @ [x]) = Inr n" by (intro stat_wf)
            with miss show False by simp
          qed
          with keep have "fs2 (q @ [x]) = None" by simp
          with os_mkdir_plain [OF snoc.prems dir]
          have "os_mkdir (q @ [x]) fs2 = (Inr (), fs2(q @ [x] \<mapsto> Dir))" by simp
          then have "fst (mkdir (q @ [x]) False exist_ok fs2) = Inr ()"
            by (simp add: mkdir_single)
          with failed show "snd (mkdir (q @ [x]) False exist_ok fs2) = fs" by simp
        qed
        from frame fail m show ?thesis by simp
      qed
    qed
  qed
qed

lemma mkdir_failed:
  assumes "wf_fs fs" and "''..'' \<notin> set p" and "stat fs p = Inl e'"
    and "fst (mkdir p True exist_ok fs) = Inl e"
  shows "snd (mkdir p True exist_ok fs) = fs"
  using mkdir_plain_props [OF assms(2), of exist_ok fs] assms by blast

lemma path_exists_found: "path_exists p fs = (Inr (\<not> isl (stat fs p)), fs)"
  by (cases "stat fs p") (simp_all add: path_exists_def)

lemma prepare_dataset_path_fs_unfold:
  "prepare_dataset_path_fs d fs =
     (case (if isl (stat fs d) then mkdir d True False fs else (Inr (), fs)) of
        (Inl e, w1) \<Rightarrow> (Inl e, w1)
      | (Inr u, w1) \<Rightarrow>
          if isl (stat w1 (d @ [''images'']))
          then mkdir (d @ [''images'']) True False w1
          else (Inr (), w1))"
  by (simp add: prepare_dataset_path_fs_def prepare_dataset_path_def path_exists_found
        split: prod.splits sum.splits)

lemma prepare_guarded:
  assumes "exists_op d w = (Inr True, w1)" and "exists_op (d @ [''images'']) w1 = (Inr True, w2)"
  shows "prepare_dataset_path exists_op mkdir_op d w = (Inr (), w2)"
  using assms by (simp add: prepare_dataset_path_def)

lemma prepare_existing:
  assumes "\<not> isl (stat fs d)" and "\<not> isl (stat fs (d @ [''images'']))"
  shows "prepare_dataset_path_fs d fs = (Inr (), fs)"
  using assms by (simp add: prepare_dataset_path_fs_unfold)

lemma prepare_succeeded:
  assumes "fst (prepare_dataset_path_fs d fs) = Inr ()"
  shows "\<not> isl (stat (snd (prepare_dataset_path_fs d fs)) d)
       \<and> \<not> isl (stat (snd (prepare_dataset_path_fs d fs)) (d @ [''images'']))"
proof -
  define w1 where "w1 = (if isl (stat fs d) then snd (mkdir d True False fs) else fs)"
  have first: "(if isl (stat fs d) then mkdir d True False fs else (Inr (), fs))
      = (Inr (), w1)"
    using assms
    by (cases "mkdir d True False fs")
       (auto simp: prepare_dataset_path_fs_unfold w1_def split: if_splits sum.splits)
  have d1: "\<not> isl (stat w1 d)"
  proof (cases "isl (stat fs d)")
    case False
    then show ?thesis by (simp add: w1_def)
  next
    case True
    with first have "mkdir d True False fs = (Inr (), w1)" by simp
    then have "stat w1 d = Inr Dir" by (rule mkdir_made)
    then show ?thesis by simp
  qed
  have res: "prepare_dataset_path_fs d fs =
      (if isl (stat w1 (d @ [''images''])) then mkdir (d @ [''images'']) True False w1
       else (Inr (), w1))"
    using first by (simp add: prepare_dataset_path_fs_unfold)
  show ?thesis
  proof (cases "isl (stat w1 (d @ [''images'']))")
    case False
    with res d1 show ?thesis by simp
  next
    case True
    obtain r fs2 where m: "mkdir (d @ [''images'']) True False w1 = (r, fs2)"
      by (cases "mkdir (d @ [''images'']) True False w1")
    with res True assms have "mkdir (d @ [''images'']) True False w1 = (Inr (), fs2)" by simp
    then have "stat fs2 (d @ [''images'']) = Inr Dir" by (rule mkdir_made)
    moreover from mkdir_mono [of w1 "d @ [''images'']" True False] m have "w1 \<subseteq>\<^sub>m fs2" by simp
    with d1 have "\<not> isl (stat fs2 d)" by (cases "stat w1 d") (auto dest: stat_mono)
    ultimately show ?thesis using res True m by simp
  qed
qed

lemma prepare_second_run:
  assumes "fst (prepare_dataset_path_fs d fs) = Inr ()"
  shows "prepare_dataset_path_fs d (snd (prepare_dataset_path_fs d fs))
           = (Inr (), snd (prepare_dataset_path_fs d fs))"
  using prepare_succeeded [OF assms] by (intro prepare_existing) simp_all

lemma prepare_failed:
  assumes wf: "wf_fs fs" and plain: "''..'' \<notin> set d"
    and failed: "fst (prepare_dataset_path_fs d fs) = Inl e"
  shows "snd (prepare_dataset_path_fs d fs) = fs"
proof (cases "isl (stat fs d)")
  case True
  then obtain e' where miss: "stat fs d = Inl e'" by (cases "stat fs d") auto
  obtain r1 fs1 where m: "mkdir d True False fs = (r1, fs1)" by (cases "mkdir d True False fs")
  show ?thesis
  proof (cases r1)
    case (Inl e1)
    with m have "fst (mkdir d True False fs) = Inl e1" by simp
    with wf plain miss have "snd (mkdir d True False fs) = fs" by (rule mkdir_failed)
    with m True Inl show ?thesis by (simp add: prepare_dataset_path_fs_unfold)
  next
    case (Inr u)
    with m have dir: "stat fs1 d = Inr Dir" by (auto intro: mkdir_made)
    have "fst (prepare_dataset_path_fs d fs) = Inr ()"
    proof (cases "isl (stat fs1 (d @ [''images'']))")
      case False
      with m Inr True show ?thesis by (simp add: prepare_dataset_path_fs_unfold)
    next
      case none: True
      from plain have p2: "''..'' \<notin> set (d @ [''images''])" by simp
      from plain dir have "walk fs1 [] d = Inr d \<and> node_at fs1 d = Some Dir" by (rule stat_plain)
      with none have "fs1 (d @ [''images'']) = None"
        by (cases "fs1 (d @ [''images''])") (auto simp: stat_snoc node_at_def)
      with os_mkdir_plain [OF p2 dir]
      have "os_mkdir (d @ [''images'']) fs1 = (Inr (), fs1(d @ [''images''] \<mapsto> Dir))" by simp
      then have "mkdir (d @ [''images'']) True False fs1 = (Inr (), fs1(d @ [''images''] \<mapsto> Dir))"
        by (simp add: mkdir_parents_snoc)
      with m Inr True none show ?thesis by (simp add: prepare_dataset_path_fs_unfold)
    qed
    with failed show ?thesis by simp
  qed
next
  case False
  show ?thesis
  proof (cases "isl (stat fs (d @ [''images'']))")
    case found: False
    with False show ?thesis by (simp add: prepare_dataset_path_fs_unfold)
  next
    case True
    then obtain e' where miss: "stat fs (d @ [''images'']) = Inl e'"
      by (cases "stat fs (d @ [''images''])") auto
    from plain have p2: "''..'' \<notin> set (d @ [''images''])" by simp
    from failed True False have "fst (mkdir (d @ [''images'']) True False fs) = Inl e"
      by (simp add: prepare_dataset_path_fs_unfold)
    with wf p2 miss have "snd (mkdir (d @ [''images'']) True False fs) = fs" by (rule mkdir_failed)
    with True False show ?thesis by (simp add: prepare_dataset_path_fs_unfold)
  qed
qed

lemma prepare_idempotent:
  assumes "wf_fs fs" and "''..'' \<notin> set d"
  shows "prepare_dataset_path_fs d (snd (prepare_dataset_path_fs d fs))
           = prepare_dataset_path_fs d fs"
proof (cases "fst (prepare_dataset_path_fs d fs)")
  case (Inl e)
  with assms have "snd (prepare_dataset_path_fs d fs) = fs" by (rule prepare_failed)
  then show ?thesis by simp
next
  case (Inr u)
  then have ok: "fst (prepare_dataset_path_fs d fs) = Inr ()" by simp
  from prepare_second_run [OF ok] ok show ?thesis by (metis prod.collapse)
qed

text \<open>
  Claim C8, as it is stated for every directory path, fails on a path with a \<open>..\<close>
  component. For \<open>a/..\<close> in an empty directory the first run creates \<open>a\<close>, the parent
  \<open>pathlib\<close> computes, and then raises \<open>FileExistsError\<close>, since \<open>a/..\<close> now is the
  directory it started from; the second run finds that directory, creates \<open>images\<close> in
  it and returns.
\<close>

theorem prepare_dataset_path_idempotent_counterexample:
  "wf_fs Map.empty
   \<and> prepare_dataset_path_fs [''a'', ''..''] Map.empty
       = (Inl FileExistsError, Map.empty([''a''] \<mapsto> Dir))
   \<and> prepare_dataset_path_fs [''a'', ''..''] (Map.empty([''a''] \<mapsto> Dir))
       = (Inr (), Map.empty([''a''] \<mapsto> Dir, [''images''] \<mapsto> Dir))
   \<and> prepare_dataset_path_fs [''a'', ''..'']
         (snd (prepare_dataset_path_fs [''a'', ''..''] Map.empty))
       \<noteq> prepare_dataset_path_fs [''a'', ''..''] Map.empty"
proof -
  have one: "prepare_dataset_path_fs [''a'', ''..''] Map.empty
       = (Inl FileExistsError, Map.empty([''a''] \<mapsto> Dir))"
    by (simp add: prepare_dataset_path_fs_def prepare_dataset_path_def path_exists_def
          stat_def node_at_def mkdir.simps os_mkdir_def is_dir_def)
  have two: "prepare_dataset_path_fs [''a'', ''..''] (Map.empty([''a''] \<mapsto> Dir))
       = (Inr (), Map.empty([''a''] \<mapsto> Dir, [''images''] \<mapsto> Dir))"
    by (simp add: prepare_dataset_path_fs_def prepare_dataset_path_def path_exists_def
          stat_def node_at_def mkdir.simps os_mkdir_def is_dir_def)
  have "wf_fs Map.empty" by (simp add: wf_fs_def)
  with one two show ?thesis by simp
qed

text \<open>
  Claim C8, amended. Each \<open>mkdir\<close> of \<open>prepare_dataset_path\<close> sits behind an existence
  check: when the dataset directory and its \<open>images\<close> subdirectory exist, the function
  returns without an error and leaves the state as the checks found it, whatever \<open>mkdir\<close>
  would do, and on the file system it leaves the tree as it was. For every path, after a
  first run that raised nothing a second run raises nothing and changes nothing. For a
  path without a \<open>..\<close> component, running the function on the tree a first run left
  gives the result and the tree of the first run.
\<close>

theorem prepare_dataset_path_idempotent:
  "(exists_op dataset_dir w = (Inr True, w1)
      \<and> exists_op (dataset_dir @ [''images'']) w1 = (Inr True, w2)
      \<longrightarrow> prepare_dataset_path exists_op mkdir_op dataset_dir w = (Inr (), w2))
   \<and> (fst (path_exists dataset_dir fs) = Inr True
      \<and> fst (path_exists (dataset_dir @ [''images'']) fs) = Inr True
      \<longrightarrow> prepare_dataset_path_fs dataset_dir fs = (Inr (), fs))
   \<and> (fst (prepare_dataset_path_fs dataset_dir fs) = Inr ()
      \<longrightarrow> prepare_dataset_path_fs dataset_dir (snd (prepare_dataset_path_fs dataset_dir fs))
            = (Inr (), snd (prepare_dataset_path_fs dataset_dir fs)))
   \<and> (wf_fs fs \<and> ''..'' \<notin> set dataset_dir
      \<longrightarrow> prepare_dataset_path_fs dataset_dir (snd (prepare_dataset_path_fs dataset_dir fs))
            = prepare_dataset_path_fs dataset_dir fs)"
proof -
  have "fst (path_exists dataset_dir fs) = Inr True
      \<and> fst (path_exists (dataset_dir @ [''images'']) fs) = Inr True
      \<longrightarrow> prepare_dataset_path_fs dataset_dir fs = (Inr (), fs)"
    by (auto simp: path_exists_found intro!: prepare_existing)
  then show ?thesis
    using prepare_guarded [of exists_op dataset_dir w w1 w2 mkdir_op]
      prepare_second_run [of dataset_dir fs] prepare_idempotent [of fs dataset_dir]
    by blast
qed

theorem prepare_dataset_path_idempotent_witness:
  "wf_fs (Map.empty([''llava_dataset''] \<mapsto> Dir, [''llava_dataset'', ''images''] \<mapsto> Dir))
   \<and> wf_fs Map.empty
   \<and> ''..'' \<notin> set [''llava_dataset'']
   \<and> path_exists [''llava_dataset'']
        (Map.empty([''llava_dataset''] \<mapsto> Dir, [''llava_dataset'', ''images''] \<mapsto> Dir))
      = (Inr True, Map.empty([''llava_dataset''] \<mapsto> Dir, [''llava_dataset'', ''images''] \<mapsto> Dir))
   \<and> path_exists ([''llava_dataset''] @ [''images''])
        (Map.empty([''llava_dataset''] \<mapsto> Dir, [''llava_dataset'', ''images''] \<mapsto> Dir))
      = (Inr True, Map.empty([''llava_dataset''] \<mapsto> Dir, [''llava_dataset'', ''images''] \<mapsto> Dir))
   \<and> prepare_dataset_path path_exists (\<lambda>p fs. (Inl (OtherError ''never called''), fs))
        [''llava_dataset'']
        (Map.empty([''llava_dataset''] \<mapsto> Dir, [''llava_dataset'', ''images''] \<mapsto> Dir))
      = (Inr (), Map.empty([''llava_dataset''] \<mapsto> Dir, [''llava_dataset'', ''images''] \<mapsto> Dir))
   \<and> prepare_dataset_path_fs [''llava_dataset''] Map.empty
      = (Inr (), Map.empty([''llava_dataset''] \<mapsto> Dir, [''llava_dataset'', ''images''] \<mapsto> Dir))
   \<and> prepare_dataset_path_fs [''llava_dataset'']
        (Map.empty([''llava_dataset''] \<mapsto> Dir, [''llava_dataset'', ''images''] \<mapsto> Dir))
      = (Inr (), Map.empty([''llava_dataset''] \<mapsto> Dir, [''llava_dataset'', ''images''] \<mapsto> Dir))"
proof -
  have run: "prepare_dataset_path_fs [''llava_dataset''] Map.empty
      = (Inr (), Map.empty([''llava_dataset''] \<mapsto> Dir, [''llava_dataset'', ''images''] \<mapsto> Dir))"
    by (simp add: prepare_dataset_path_fs_def prepare_dataset_path_def path_exists_def
          stat_def node_at_def mkdir.simps os_mkdir_def is_dir_def)
  have ex: "path_exists [''llava_dataset'']
        (Map.empty([''llava_dataset''] \<mapsto> Dir, [''llava_dataset'', ''images''] \<mapsto> Dir))
      = (Inr True, Map.empty([''llava_dataset''] \<mapsto> Dir, [''llava_dataset'', ''images''] \<mapsto> Dir))
   \<and> path_exists ([''llava_dataset''] @ [''images''])
        (Map.empty([''llava_dataset''] \<mapsto> Dir, [''llava_dataset'', ''images''] \<mapsto> Dir))
      = (Inr True, Map.empty([''llava_dataset''] \<mapsto> Dir, [''llava_dataset'', ''images''] \<mapsto> Dir))"
    by (simp add: path_exists_def stat_def node_at_def)
  have wf: "wf_fs (Map.empty([''llava_dataset''] \<mapsto> Dir, [''llava_dataset'', ''images''] \<mapsto> Dir))
      \<and> wf_fs Map.empty"
    by (auto simp: wf_fs_def node_at_def split: if_splits)
  from prepare_dataset_path_idempotent [where exists_op = path_exists
      and w = "Map.empty([''llava_dataset''] \<mapsto> Dir, [''llava_dataset'', ''images''] \<mapsto> Dir)"
      and ?w1.0 = "Map.empty([''llava_dataset''] \<mapsto> Dir, [''llava_dataset'', ''images''] \<mapsto> Dir)"
      and ?w2.0 = "Map.empty([''llava_dataset''] \<mapsto> Dir, [''llava_dataset'', ''images''] \<mapsto> Dir)"
      and dataset_dir = "[''llava_dataset'']"
      and mkdir_op = "\<lambda>p fs. (Inl (OtherError ''never called''), fs)"
      and fs = "Map.empty([''llava_dataset''] \<mapsto> Dir, [''llava_dataset'', ''images''] \<mapsto> Dir)"]
    run ex wf
  show ?thesis by simp
qed


section \<open>Merging and saving\<close>

lemma merge_cell_base:
  "merge_cell
     (lib\<lparr>from_pretrained :=
        (\<lambda>b d w. case b of Name n \<Rightarrow> from_pretrained lib (Name n) d w
                          | Module m \<Rightarrow> on_module m d w)\<rparr>)
     model_path output_dir w
   = merge_cell lib model_path output_dir w"
  by (simp add: merge_cell_def split: prod.splits sum.splits)

lemma merge_and_save_raises:
  assumes "from_pretrained lib (Name model_path) output_dir w = (Inl e, w1)"
  shows "merge_and_save lib model_path output_dir merged_path repo_id push_to_hub tokenizer
           image_processor w = (Inl e, w1)"
  using assms by (simp add: merge_and_save_def merge_cell_def)

lemma merge_and_save_returns:
  assumes "from_pretrained lib (Name model_path) output_dir w = (Inr model, w1)"
    and "merge_and_unload lib model w1 = (Inr merged, w2)"
    and "bfloat16 lib merged w2 = (Inr converted, w3)"
    and "model_save_pretrained lib converted merged_path repo_id push_to_hub w3 = (Inr (), w4)"
    and "tokenizer_save_pretrained lib tokenizer merged_path repo_id push_to_hub w4 = (Inr (), w5)"
  shows "merge_and_save lib model_path output_dir merged_path repo_id push_to_hub tokenizer
           image_processor w
         = image_processor_save_pretrained lib image_processor merged_path repo_id push_to_hub w5"
  using assms by (simp add: merge_and_save_def merge_cell_def save_cell_def)

text \<open>
  Claim C5. The first cell gives \<open>from_pretrained\<close> the name of the checkpoint, a string,
  as the base model, and never a loaded model: whatever the library does with a model is
  of no consequence for the cell. When the library raises on that argument, the error
  leaves the cell, and nothing is merged and nothing saved.
\<close>

theorem merge_cell_passes_name:
  "merge_cell
     (lib\<lparr>from_pretrained :=
        (\<lambda>b d w. case b of Name n \<Rightarrow> from_pretrained lib (Name n) d w
                          | Module m \<Rightarrow> on_module m d w)\<rparr>)
     model_path output_dir w
   = merge_cell lib model_path output_dir w
   \<and> (from_pretrained lib (Name model_path) output_dir w = (Inl e, w1)
      \<longrightarrow> merge_and_save lib model_path output_dir merged_path repo_id push_to_hub tokenizer
            image_processor w = (Inl e, w1))"
  using merge_cell_base [of lib on_module model_path output_dir w]
    merge_and_save_raises [of lib model_path output_dir w e w1 merged_path repo_id push_to_hub
      tokenizer image_processor]
  by blast

theorem merge_cell_passes_name_witness:
  "merge_and_save
     \<lparr>from_pretrained = (\<lambda>b d n. case b of
          Name s \<Rightarrow> (Inl (OtherError ''str object has no attribute named_modules''), Suc n)
        | Module m \<Rightarrow> (Inr (m::unit), Suc n)),
      merge_and_unload = (\<lambda>m n. (Inr m, Suc n)),
      bfloat16 = (\<lambda>m n. (Inr m, Suc n)),
      model_save_pretrained = (\<lambda>m d r p n. (Inr (), Suc n)),
      tokenizer_save_pretrained = (\<lambda>t d r p n. (Inr (), Suc n)),
      image_processor_save_pretrained = (\<lambda>i d r p n. (Inr (), Suc n))\<rparr>
     ''ytu-ce-cosmos/Turkish-LLaVA-v0.1'' ''output'' ''merged_output''
     ''atasoglu/Turkish-LLaVA-v0.1-ft'' True () () 0
   = (Inl (OtherError ''str object has no attribute named_modules''), Suc 0)"
  using merge_cell_passes_name [where lib =
      "\<lparr>from_pretrained = (\<lambda>b d n. case b of
          Name s \<Rightarrow> (Inl (OtherError ''str object has no attribute named_modules''), Suc n)
        | Module m \<Rightarrow> (Inr (m::unit), Suc n)),
      merge_and_unload = (\<lambda>m n. (Inr m, Suc n)),
      bfloat16 = (\<lambda>m n. (Inr m, Suc n)),
      model_save_pretrained = (\<lambda>m d r p n. (Inr (), Suc n)),
      tokenizer_save_pretrained = (\<lambda>t d r p n. (Inr (), Suc n)),
      image_processor_save_pretrained = (\<lambda>i d r p n. (Inr (), Suc n))\<rparr>"
      and model_path = "''ytu-ce-cosmos/Turkish-LLaVA-v0.1''" and output_dir = "''output''"
      and w = 0 and e = "OtherError ''str object has no attribute named_modules''"
      and ?w1.0 = "Suc 0" and merged_path = "''merged_output''"
      and repo_id = "''atasoglu/Turkish-LLaVA-v0.1-ft''" and push_to_hub = True
      and tokenizer = "()" and image_processor = "()"]
  by simp

end
